theory Spec2Isabelle
  imports Main "HOL-Library.Word" "HOL-Library.Monad_Syntax" "HOL-Library.Sublist"
begin

section \<open>Data model of \<open>piper_boot_init.cpp\<close>\<close>

text \<open>
  The exit codes of the program (\<open>enum class InitError : int\<close>, lines 32-44), in the
  order of the source.
\<close>

datatype InitError =
    OK
  | CAN_OPEN_FAILED
  | CONNECT_FAILED
  | ENABLE_FAILED
  | ENABLE_TIMEOUT
  | HOME_FAILED
  | HOME_TIMEOUT
  | SIGNAL_INTERRUPTED
  | STATUS_CHECK_FAILED
  | ARM_ERROR

text \<open>\<open>static_cast<int>(result)\<close> of \<open>main\<close> (line 455).\<close>

fun exit_code :: "InitError \<Rightarrow> int" where
  "exit_code OK = 0"
| "exit_code CAN_OPEN_FAILED = 1"
| "exit_code CONNECT_FAILED = 2"
| "exit_code ENABLE_FAILED = 3"
| "exit_code ENABLE_TIMEOUT = 4"
| "exit_code HOME_FAILED = 5"
| "exit_code HOME_TIMEOUT = 6"
| "exit_code SIGNAL_INTERRUPTED = 7"
| "exit_code STATUS_CHECK_FAILED = 8"
| "exit_code ARM_ERROR = 9"

type_synonym int32 = "32 word"

text \<open>
  \<open>PiperInitializer::Config\<close> (lines 124-136). Durations are
  \<open>std::chrono::milliseconds\<close>, a signed count of milliseconds; time is counted in
  milliseconds throughout, as an unbounded \<open>int\<close> (the 64-bit range of the clock is
  not modelled). \<open>home_retry_count\<close> is a C++ \<open>int\<close>; the only arithmetic on it is
  the comparison \<open>retry < home_retry_count\<close>, so no overflow can occur and it is an
  \<open>int\<close> here. \<open>target_joints\<close> is a \<open>std::vector<int32_t>\<close>, read as signed
  with \<open>sint\<close>.
\<close>

record Config =
  can_interface :: string
  connect_timeout :: int
  enable_timeout :: int
  home_timeout :: int
  status_poll_interval :: int
  home_retry_count :: int
  motion_speed_percent :: "8 word"
  target_joints :: "int32 list"

text \<open>The default member initialisers of \<open>Config\<close>.\<close>

definition default_Config :: Config where
  "default_Config =
     \<lparr> can_interface = ''can0'',
       connect_timeout = 5000,
       enable_timeout = 10000,
       home_timeout = 60000,
       status_poll_interval = 50,
       home_retry_count = 2,
       motion_speed_percent = 30,
       target_joints = [0, 0, 0, 0, 0, 0] \<rparr>"

text \<open>The configuration built by \<open>main\<close> (lines 444-450).\<close>

definition main_Config :: Config where
  "main_Config = default_Config \<lparr> target_joints := [- 90000, 0, 0, 0, 0, 0] \<rparr>"

text \<open>
  Modelled from the spec: the arm-status snapshot of \<open>piper_sdk\<close>, whose declaration
  (\<open>piper_sdk/piper_interface.hpp\<close>) is not part of the sources. The spec gives it an
  error code, an enabled flag, a control mode and a per-joint position vector; the
  source reads exactly the fields \<open>error_code\<close>, \<open>enabled\<close>, \<open>control_mode\<close> and
  \<open>joints.position_mdeg\<close>. The positions are taken as \<open>int32_t\<close>, the type of the
  target vector they are subtracted from and of the \<open>diff\<close> variable (line 417).
\<close>

record ArmStatus =
  error_code :: int
  enabled :: bool
  control_mode :: int
  position_mdeg :: "int32 list"

text \<open>
  Undefined behaviour of the C++ program is an outcome of its own: dereferencing an
  empty optional (\<open>arm_status->enabled\<close> on an empty \<open>arm_status\<close>) and signed
  overflow of \<open>int32_t\<close> arithmetic.
\<close>

datatype fault = EmptyOptionalAccess | SignedOverflow

datatype outcome = Returns InitError | Undefined fault

section \<open>The environment: device interface, clock and cancellation flag\<close>

text \<open>
  Every interaction of the program with its environment is recorded, in order, with the
  answer it got: the calls on the device interface, the sleeps, and the reads of
  \<open>g_shutdown_requested\<close>. The \<open>message\<close> of a call result is only ever logged, so a
  result is its \<open>ok\<close> flag. Writing to the logger is not modelled.
\<close>

datatype event =
    NewInterface string bool
  | ConnectPort bool
  | ShutdownRead bool
  | SleepFor int
  | GetConnectStatus bool bool
  | GetPiperFirmwareVersion
  | GetCachedFirmwareVersion "string option"
  | GetArmStatus "ArmStatus option"
  | ResetArm
  | EnableArm nat bool
  | EnablePiper bool
  | MotionControl2 "8 word list" bool
  | MoveJoint "int32 list" bool

text \<open>
  Modelled from the spec: the device interface of \<open>piper_sdk\<close> (section 6 of the
  spec), the monotonic clock, \<open>sleep_for\<close> and the cancellation flag, none of which
  is part of the sources. They are the parameters of the model: \<open>'w\<close> is the state of
  everything outside the program, and each operation is a function on it.
  \<open>new_interface\<close> stands for the two constructors of \<open>createInterface\<close>; it answers
  \<open>False\<close> when one of them throws. \<open>connect_port\<close> is always called with
  \<open>(10ms, true, true)\<close>.
\<close>

record 'w Device =
  steady_clock_now :: "'w \<Rightarrow> int"
  g_shutdown_requested :: "'w \<Rightarrow> bool"
  sleep_for :: "int \<Rightarrow> 'w \<Rightarrow> 'w"
  new_interface :: "string \<Rightarrow> 'w \<Rightarrow> bool \<times> 'w"
  connect_port :: "'w \<Rightarrow> bool \<times> 'w"
  get_connect_status :: "'w \<Rightarrow> (bool \<times> bool) \<times> 'w"
  get_piper_firmware_version :: "'w \<Rightarrow> 'w"
  get_cached_firmware_version :: "'w \<Rightarrow> string option \<times> 'w"
  get_arm_status :: "'w \<Rightarrow> ArmStatus option \<times> 'w"
  reset_arm :: "'w \<Rightarrow> 'w"
  enable_arm :: "nat \<Rightarrow> 'w \<Rightarrow> bool \<times> 'w"
  enable_piper :: "'w \<Rightarrow> bool \<times> 'w"
  motion_control_2 :: "8 word list \<Rightarrow> 'w \<Rightarrow> bool \<times> 'w"
  move_joint :: "int32 list \<Rightarrow> 'w \<Rightarrow> bool \<times> 'w"

text \<open>The state threaded through the program: the environment and the record of calls.\<close>

record 'w state =
  world :: 'w
  trace :: "event list"

definition emit :: "event \<Rightarrow> 'w \<Rightarrow> 'w state \<Rightarrow> 'w state" where
  "emit e w s = \<lparr> world = w, trace = trace s @ [e] \<rparr>"

definition now :: "'w Device \<Rightarrow> 'w state \<Rightarrow> int" where
  "now dev s = steady_clock_now dev (world s)"

definition read_shutdown :: "'w Device \<Rightarrow> 'w state \<Rightarrow> bool \<times> 'w state" where
  "read_shutdown dev s =
     (let flag = g_shutdown_requested dev (world s)
      in (flag, emit (ShutdownRead flag) (world s) s))"

definition do_sleep :: "'w Device \<Rightarrow> int \<Rightarrow> 'w state \<Rightarrow> 'w state" where
  "do_sleep dev d s = emit (SleepFor d) (sleep_for dev d (world s)) s"

definition do_new_interface :: "'w Device \<Rightarrow> string \<Rightarrow> 'w state \<Rightarrow> bool \<times> 'w state" where
  "do_new_interface dev name s =
     (let (ok, w) = new_interface dev name (world s)
      in (ok, emit (NewInterface name ok) w s))"

definition do_connect_port :: "'w Device \<Rightarrow> 'w state \<Rightarrow> bool \<times> 'w state" where
  "do_connect_port dev s =
     (let (ok, w) = connect_port dev (world s)
      in (ok, emit (ConnectPort ok) w s))"

definition do_get_connect_status ::
  "'w Device \<Rightarrow> 'w state \<Rightarrow> (bool \<times> bool) \<times> 'w state" where
  "do_get_connect_status dev s =
     (let ((connected, stale), w) = get_connect_status dev (world s)
      in ((connected, stale), emit (GetConnectStatus connected stale) w s))"

definition do_get_piper_firmware_version :: "'w Device \<Rightarrow> 'w state \<Rightarrow> 'w state" where
  "do_get_piper_firmware_version dev s =
     emit GetPiperFirmwareVersion (get_piper_firmware_version dev (world s)) s"

definition do_get_cached_firmware_version ::
  "'w Device \<Rightarrow> 'w state \<Rightarrow> string option \<times> 'w state" where
  "do_get_cached_firmware_version dev s =
     (let (fw, w) = get_cached_firmware_version dev (world s)
      in (fw, emit (GetCachedFirmwareVersion fw) w s))"

definition do_get_arm_status ::
  "'w Device \<Rightarrow> 'w state \<Rightarrow> ArmStatus option \<times> 'w state" where
  "do_get_arm_status dev s =
     (let (st, w) = get_arm_status dev (world s)
      in (st, emit (GetArmStatus st) w s))"

definition do_reset_arm :: "'w Device \<Rightarrow> 'w state \<Rightarrow> 'w state" where
  "do_reset_arm dev s = emit ResetArm (reset_arm dev (world s)) s"

definition do_enable_arm :: "'w Device \<Rightarrow> nat \<Rightarrow> 'w state \<Rightarrow> bool \<times> 'w state" where
  "do_enable_arm dev n s =
     (let (ok, w) = enable_arm dev n (world s)
      in (ok, emit (EnableArm n ok) w s))"

definition do_enable_piper :: "'w Device \<Rightarrow> 'w state \<Rightarrow> bool \<times> 'w state" where
  "do_enable_piper dev s =
     (let (ok, w) = enable_piper dev (world s)
      in (ok, emit (EnablePiper ok) w s))"

definition do_motion_control_2 ::
  "'w Device \<Rightarrow> 8 word list \<Rightarrow> 'w state \<Rightarrow> bool \<times> 'w state" where
  "do_motion_control_2 dev args s =
     (let (ok, w) = motion_control_2 dev args (world s)
      in (ok, emit (MotionControl2 args ok) w s))"

definition do_move_joint ::
  "'w Device \<Rightarrow> int32 list \<Rightarrow> 'w state \<Rightarrow> bool \<times> 'w state" where
  "do_move_joint dev joints s =
     (let (ok, w) = move_joint dev joints (world s)
      in (ok, emit (MoveJoint joints ok) w s))"

section \<open>The step functions of \<open>PiperInitializer\<close>\<close>

text \<open>\<open>createInterface\<close> (lines 182-203): the \<open>catch\<close> branch is the answer \<open>False\<close>.\<close>

definition createInterface :: "'w Device \<Rightarrow> Config \<Rightarrow> 'w state \<Rightarrow> outcome \<times> 'w state" where
  "createInterface dev cfg s =
     (let (ok, s1) = do_new_interface dev (can_interface cfg) s
      in if ok then (Returns OK, s1) else (Returns CAN_OPEN_FAILED, s1))"

text \<open>\<open>connectPort\<close> (lines 205-218).\<close>

definition connectPort :: "'w Device \<Rightarrow> 'w state \<Rightarrow> outcome \<times> 'w state" where
  "connectPort dev s =
     (let (ok, s1) = do_connect_port dev s
      in if \<not> ok then (Returns CONNECT_FAILED, s1)
         else (Returns OK, do_sleep dev 200 s1))"

text \<open>
  \<open>waitForConnection\<close> (lines 220-255). The loop runs while the clock is before the
  deadline; it returns \<open>None\<close> when it never leaves.
\<close>

partial_function (option) waitForConnection_loop ::
  "'w Device \<Rightarrow> Config \<Rightarrow> int \<Rightarrow> 'w state \<Rightarrow> (outcome \<times> 'w state) option" where
  "waitForConnection_loop dev cfg deadline s =
     (if now dev s < deadline then
        let (flag, s1) = read_shutdown dev s in
        if flag then Some (Returns SIGNAL_INTERRUPTED, s1)
        else
          let ((connected, stale), s2) = do_get_connect_status dev s1 in
          if connected \<and> \<not> stale then
            let s3 = do_get_piper_firmware_version dev s2;
                s4 = do_sleep dev 100 s3;
                (fw_version, s5) = do_get_cached_firmware_version dev s4
            in Some (Returns OK, s5)
          else waitForConnection_loop dev cfg deadline
                 (do_sleep dev (status_poll_interval cfg) s2)
      else Some (Returns CONNECT_FAILED, s))"

definition waitForConnection ::
  "'w Device \<Rightarrow> Config \<Rightarrow> 'w state \<Rightarrow> (outcome \<times> 'w state) option" where
  "waitForConnection dev cfg s =
     waitForConnection_loop dev cfg (now dev s + connect_timeout cfg) s"

text \<open>
  \<open>checkArmStatus\<close> (lines 257-288). The log line of lines 284-285 evaluates
  \<open>arm_status->enabled\<close> and \<open>arm_status->control_mode\<close>, which is undefined when
  \<open>arm_status\<close> is empty.
\<close>

definition checkArmStatus :: "'w Device \<Rightarrow> 'w state \<Rightarrow> outcome \<times> 'w state" where
  "checkArmStatus dev s =
     (let (arm_status, s1) = do_get_arm_status dev s in
      case arm_status of
        None \<Rightarrow> (Returns OK, s1)
      | Some st \<Rightarrow>
          if error_code st \<noteq> 0 then
            let s2 = do_reset_arm dev s1;
                s3 = do_sleep dev 500 s2;
                (arm_status', s4) = do_get_arm_status dev s3
            in (case arm_status' of
                  Some st' \<Rightarrow>
                    if error_code st' \<noteq> 0 then (Returns ARM_ERROR, s4)
                    else (Returns OK, s4)
                | None \<Rightarrow> (Undefined EmptyOptionalAccess, s4))
          else (Returns OK, s1))"

text \<open>
  \<open>enableMotors\<close> (lines 290-338). The first loop (lines 305-313) evaluates
  \<open>enable_piper()\<close> before the bound on \<open>retry_count\<close>; it either returns from the
  function (\<open>Some\<close>) or falls through with the final \<open>retry_count\<close>.
\<close>

definition MAX_RETRIES :: int where
  "MAX_RETRIES = 200"

function enable_fast_loop ::
  "'w Device \<Rightarrow> int \<Rightarrow> 'w state \<Rightarrow> InitError option \<times> int \<times> 'w state" where
  "enable_fast_loop dev retry_count s =
     (let (enabled_now, s1) = do_enable_piper dev s in
      if \<not> enabled_now \<and> retry_count < MAX_RETRIES then
        let (flag, s2) = read_shutdown dev s1 in
        if flag then (Some SIGNAL_INTERRUPTED, retry_count, s2)
        else enable_fast_loop dev (retry_count + 1) (do_sleep dev 10 s2)
      else (None, retry_count, s1))"
  by pat_completeness auto
termination
  by (relation "measure (\<lambda>(dev, retry_count, s). nat (MAX_RETRIES - retry_count))") auto

partial_function (option) enable_long_loop ::
  "'w Device \<Rightarrow> Config \<Rightarrow> int \<Rightarrow> 'w state \<Rightarrow> (outcome \<times> 'w state) option" where
  "enable_long_loop dev cfg deadline s =
     (if now dev s < deadline then
        let (flag, s1) = read_shutdown dev s in
        if flag then Some (Returns SIGNAL_INTERRUPTED, s1)
        else
          let (enabled_now, s2) = do_enable_piper dev s1 in
          if enabled_now then Some (Returns OK, s2)
          else enable_long_loop dev cfg deadline
                 (do_sleep dev (status_poll_interval cfg) s2)
      else Some (Returns ENABLE_TIMEOUT, s))"

definition enableMotors ::
  "'w Device \<Rightarrow> Config \<Rightarrow> 'w state \<Rightarrow> (outcome \<times> 'w state) option" where
  "enableMotors dev cfg s =
     (let (ok, s1) = do_enable_arm dev 7 s in
      case enable_fast_loop dev 0 s1 of
        (Some err, retry_count, s2) \<Rightarrow> Some (Returns err, s2)
      | (None, retry_count, s2) \<Rightarrow>
          if retry_count \<ge> MAX_RETRIES then
            enable_long_loop dev cfg (now dev s2 + enable_timeout cfg) s2
          else Some (Returns OK, s2))"

text \<open>
  \<open>waitHomingDone\<close> (lines 393-437). \<open>joint_diff\<close> is line 417: the subtraction and
  \<open>std::abs\<close> are \<open>int\<close> arithmetic, undefined (\<open>None\<close>) when the difference or its
  absolute value leaves the 32-bit range. \<open>all_at_target\<close> is the \<open>for\<close> loop of
  lines 415-423 over the indices present in both vectors, leaving at the first joint
  out of tolerance.
\<close>

definition kPositionTolerance :: int where
  "kPositionTolerance = 1000"

definition joint_diff :: "int32 \<Rightarrow> int32 \<Rightarrow> int option" where
  "joint_diff p t =
     (let d = sint p - sint t in
      if d < - (2 ^ 31) \<or> 2 ^ 31 \<le> d then None
      else if d = - (2 ^ 31) then None
      else Some \<bar>d\<bar>)"

fun all_at_target :: "int32 list \<Rightarrow> int32 list \<Rightarrow> bool option" where
  "all_at_target (p # ps) (t # ts) =
     (case joint_diff p t of
        None \<Rightarrow> None
      | Some diff \<Rightarrow>
          if diff > kPositionTolerance then Some False else all_at_target ps ts)"
| "all_at_target ps ts = Some True"

text \<open>
  What one poll of the wait does with the fetched status (lines 406-430): return from
  the wait, or go on to the sleep.
\<close>

datatype poll = Return outcome | KeepWaiting

definition homing_poll :: "Config \<Rightarrow> ArmStatus option \<Rightarrow> poll" where
  "homing_poll cfg arm_status =
     (case arm_status of
        None \<Rightarrow> KeepWaiting
      | Some st \<Rightarrow>
          if error_code st \<noteq> 0 then Return (Returns ARM_ERROR)
          else (case all_at_target (position_mdeg st) (target_joints cfg) of
                  None \<Rightarrow> Return (Undefined SignedOverflow)
                | Some at_target \<Rightarrow>
                    if at_target then Return (Returns OK) else KeepWaiting))"

partial_function (option) waitHomingDone_loop ::
  "'w Device \<Rightarrow> Config \<Rightarrow> int \<Rightarrow> 'w state \<Rightarrow> (outcome \<times> 'w state) option" where
  "waitHomingDone_loop dev cfg deadline s =
     (if now dev s < deadline then
        let (flag, s1) = read_shutdown dev s in
        if flag then Some (Returns SIGNAL_INTERRUPTED, s1)
        else
          let (arm_status, s2) = do_get_arm_status dev s1 in
          case homing_poll cfg arm_status of
            Return r \<Rightarrow> Some (r, s2)
          | KeepWaiting \<Rightarrow>
              waitHomingDone_loop dev cfg deadline
                (do_sleep dev (status_poll_interval cfg) s2)
      else Some (Returns HOME_TIMEOUT, s))"

definition waitHomingDone ::
  "'w Device \<Rightarrow> Config \<Rightarrow> 'w state \<Rightarrow> (outcome \<times> 'w state) option" where
  "waitHomingDone dev cfg s =
     waitHomingDone_loop dev cfg (now dev s + home_timeout cfg) s"

text \<open>
  \<open>performHoming\<close> (lines 340-391): the \<open>for\<close> loop over \<open>retry\<close>, each
  \<open>continue\<close> and the fall-through at the end of the body being the call with
  \<open>retry + 1\<close>. The mode-set arguments are \<open>(0x01, 0x01, speed, 0x00, 0x00, 0x00)\<close>.
  Once the wait is undefined, so is the step.
\<close>

partial_function (option) performHoming_loop ::
  "'w Device \<Rightarrow> Config \<Rightarrow> int \<Rightarrow> 'w state \<Rightarrow> (outcome \<times> 'w state) option" where
  "performHoming_loop dev cfg retry s =
     (if retry < home_retry_count cfg then
        let (flag, s1) = read_shutdown dev s in
        if flag then Some (Returns SIGNAL_INTERRUPTED, s1)
        else
          let s2 = (if retry > 0 then do_sleep dev 1000 s1 else s1);
              (mode_ok, s3) =
                 do_motion_control_2 dev [1, 1, motion_speed_percent cfg, 0, 0, 0] s2
          in
          if \<not> mode_ok then performHoming_loop dev cfg (retry + 1) s3
          else
            let s4 = do_sleep dev 100 s3;
                (move_ok, s5) = do_move_joint dev (target_joints cfg) s4
            in
            if \<not> move_ok then performHoming_loop dev cfg (retry + 1) s5
            else
              do {
                (wait_result, s6) \<leftarrow> waitHomingDone dev cfg s5;
                case wait_result of
                  Undefined f \<Rightarrow> Some (Undefined f, s6)
                | Returns err \<Rightarrow>
                    if err = OK then Some (Returns OK, s6)
                    else if err = SIGNAL_INTERRUPTED then Some (Returns err, s6)
                    else performHoming_loop dev cfg (retry + 1) s6
              }
      else Some (Returns HOME_FAILED, s))"

definition performHoming ::
  "'w Device \<Rightarrow> Config \<Rightarrow> 'w state \<Rightarrow> (outcome \<times> 'w state) option" where
  "performHoming dev cfg s = performHoming_loop dev cfg 0 s"

text \<open>
  \<open>run\<close> (lines 145-175): each step's result is returned at once unless it is
  \<open>OK\<close>.
\<close>

definition run :: "'w Device \<Rightarrow> Config \<Rightarrow> 'w state \<Rightarrow> (outcome \<times> 'w state) option" where
  "run dev cfg s =
     (let (err, s1) = createInterface dev cfg s in
      if err \<noteq> Returns OK then Some (err, s1)
      else
        let (err, s2) = connectPort dev s1 in
        if err \<noteq> Returns OK then Some (err, s2)
        else
          do {
            (err, s3) \<leftarrow> waitForConnection dev cfg s2;
            if err \<noteq> Returns OK then Some (err, s3)
            else
              let (err, s4) = checkArmStatus dev s3 in
              if err \<noteq> Returns OK then Some (err, s4)
              else
                do {
                  (err, s5) \<leftarrow> enableMotors dev cfg s4;
                  if err \<noteq> Returns OK then Some (err, s5)
                  else
                    do {
                      (err, s6) \<leftarrow> performHoming dev cfg s5;
                      if err \<noteq> Returns OK then Some (err, s6)
                      else Some (Returns OK, s6)
                    }
                }
          })"

text \<open>\<open>main\<close> (lines 440-466): the exit code of a run that returns.\<close>

definition main_exit :: "'w Device \<Rightarrow> 'w state \<Rightarrow> int option" where
  "main_exit dev s =
     (case run dev main_Config s of
        Some (Returns result, s') \<Rightarrow> Some (exit_code result)
      | _ \<Rightarrow> None)"

section \<open>Notions used to state the properties\<close>

text \<open>The events a run added to the record: those of \<open>s'\<close> after the ones of \<open>s\<close>.\<close>

definition new_events :: "'w state \<Rightarrow> 'w state \<Rightarrow> event list" where
  "new_events s s' = drop (length (trace s)) (trace s')"

text \<open>
  The first of the six steps of \<open>run\<close> whose code makes a call: \<open>createInterface\<close>
  (1), \<open>connectPort\<close> (2, which also sleeps), \<open>waitForConnection\<close> (3, the first
  to read the cancellation flag), \<open>checkArmStatus\<close> (4), \<open>enableMotors\<close> (5),
  \<open>performHoming\<close> (6).
\<close>

fun earliest_step :: "event \<Rightarrow> nat" where
  "earliest_step (NewInterface name ok) = 1"
| "earliest_step (ConnectPort ok) = 2"
| "earliest_step (SleepFor d) = 2"
| "earliest_step (ShutdownRead flag) = 3"
| "earliest_step (GetConnectStatus connected stale) = 3"
| "earliest_step GetPiperFirmwareVersion = 3"
| "earliest_step (GetCachedFirmwareVersion fw) = 3"
| "earliest_step (GetArmStatus st) = 4"
| "earliest_step ResetArm = 4"
| "earliest_step (EnableArm n ok) = 5"
| "earliest_step (EnablePiper ok) = 5"
| "earliest_step (MotionControl2 args ok) = 6"
| "earliest_step (MoveJoint joints ok) = 6"

text \<open>An answer recorded in an event is one the device gives in some state.\<close>

fun answers :: "'w Device \<Rightarrow> event \<Rightarrow> bool" where
  "answers dev (NewInterface name ok) = (\<exists>w. fst (new_interface dev name w) = ok)"
| "answers dev (ConnectPort ok) = (\<exists>w. fst (connect_port dev w) = ok)"
| "answers dev (ShutdownRead flag) = (\<exists>w. g_shutdown_requested dev w = flag)"
| "answers dev (GetConnectStatus connected stale) =
     (\<exists>w. fst (get_connect_status dev w) = (connected, stale))"
| "answers dev (GetCachedFirmwareVersion fw) =
     (\<exists>w. fst (get_cached_firmware_version dev w) = fw)"
| "answers dev (GetArmStatus st) = (\<exists>w. fst (get_arm_status dev w) = st)"
| "answers dev (EnableArm n ok) = (\<exists>w. fst (enable_arm dev n w) = ok)"
| "answers dev (EnablePiper ok) = (\<exists>w. fst (enable_piper dev w) = ok)"
| "answers dev (MotionControl2 args ok) = (\<exists>w. fst (motion_control_2 dev args w) = ok)"
| "answers dev (MoveJoint joints ok) = (\<exists>w. fst (move_joint dev joints w) = ok)"
| "answers dev e = True"

text \<open>
  From \<open>s\<close> to \<open>s'\<close> the record only grew, by answers of the device to calls that
  steps \<open>1\<close> to \<open>k\<close> make.
\<close>

definition emits :: "nat \<Rightarrow> 'w Device \<Rightarrow> 'w state \<Rightarrow> 'w state \<Rightarrow> bool" where
  "emits k dev s s' \<longleftrightarrow>
     (\<exists>evs. trace s' = trace s @ evs
         \<and> list_all (\<lambda>e. earliest_step e \<le> k \<and> answers dev e) evs)"

text \<open>
  \<open>SIGNAL_INTERRUPTED\<close> is returned right after a read of the flag that found it set,
  and no other outcome follows such a read.
\<close>

definition cancel_ok :: "event list \<Rightarrow> outcome \<Rightarrow> bool" where
  "cancel_ok evs r =
     (if r = Returns SIGNAL_INTERRUPTED then evs \<noteq> [] \<and> last evs = ShutdownRead True
      else ShutdownRead True \<notin> set evs)"

text \<open>
  The clock is monotonic: no call of a wait loop turns it back, and \<open>sleep_for d\<close>
  lasts at least \<open>d\<close>.
\<close>

definition monotonic_clock :: "'w Device \<Rightarrow> bool" where
  "monotonic_clock dev \<longleftrightarrow>
     (\<forall>d w. steady_clock_now dev w + d \<le> steady_clock_now dev (sleep_for dev d w))
   \<and> (\<forall>w. steady_clock_now dev w \<le> steady_clock_now dev (snd (get_connect_status dev w)))
   \<and> (\<forall>w. steady_clock_now dev w \<le> steady_clock_now dev (snd (enable_piper dev w)))
   \<and> (\<forall>w. steady_clock_now dev w \<le> steady_clock_now dev (snd (get_arm_status dev w)))"

text \<open>The commands of the homing step, for counting attempts.\<close>

fun is_mode_set :: "event \<Rightarrow> bool" where
  "is_mode_set (MotionControl2 args ok) = True"
| "is_mode_set e = False"

fun is_move :: "event \<Rightarrow> bool" where
  "is_move (MoveJoint joints ok) = True"
| "is_move e = False"

text \<open>
  An event of a homing attempt that fails to converge with no arm error and no
  cancellation: commands are acknowledged, the flag reads unset, and a fetched status
  sends the wait on to its next poll.
\<close>

fun no_convergence :: "Config \<Rightarrow> event \<Rightarrow> bool" where
  "no_convergence cfg (ShutdownRead flag) = (\<not> flag)"
| "no_convergence cfg (MotionControl2 args ok) = ok"
| "no_convergence cfg (MoveJoint joints ok) = ok"
| "no_convergence cfg (GetArmStatus st) = (homing_poll cfg st = KeepWaiting)"
| "no_convergence cfg e = True"

section \<open>Environments and inputs of the examples\<close>

text \<open>
  A simulated environment whose state is the time in milliseconds: only sleeping takes
  time, every command is acknowledged, and the cancellation flag, the link status, the
  arm status and the enable confirmation are functions of the time.
\<close>

definition sim_device ::
  "(int \<Rightarrow> bool) \<Rightarrow> (int \<Rightarrow> bool \<times> bool) \<Rightarrow> (int \<Rightarrow> ArmStatus option) \<Rightarrow> (int \<Rightarrow> bool)
     \<Rightarrow> int Device" where
  "sim_device flag link arm en =
     \<lparr> steady_clock_now = (\<lambda>t. t),
       g_shutdown_requested = flag,
       sleep_for = (\<lambda>d t. t + max d 0),
       new_interface = (\<lambda>name t. (True, t)),
       connect_port = (\<lambda>t. (True, t)),
       get_connect_status = (\<lambda>t. (link t, t)),
       get_piper_firmware_version = (\<lambda>t. t),
       get_cached_firmware_version = (\<lambda>t. (None, t)),
       get_arm_status = (\<lambda>t. (arm t, t)),
       reset_arm = (\<lambda>t. t),
       enable_arm = (\<lambda>n t. (True, t)),
       enable_piper = (\<lambda>t. (en t, t)),
       motion_control_2 = (\<lambda>args t. (True, t)),
       move_joint = (\<lambda>joints t. (True, t)) \<rparr>"

definition boot :: "int state" where
  "boot = \<lparr> world = 0, trace = [] \<rparr>"

definition near_target_status :: ArmStatus where
  "near_target_status =
     \<lparr> error_code = 0, enabled = True, control_mode = 1,
       position_mdeg = [- 89500, 0, 1000, 0, - 1000, 0] \<rparr>"

definition off_target_status :: ArmStatus where
  "off_target_status =
     \<lparr> error_code = 0, enabled = True, control_mode = 1,
       position_mdeg = [- 89500, 0, 0, 0, 0, 1001] \<rparr>"

definition far_off_status :: ArmStatus where
  "far_off_status =
     \<lparr> error_code = 0, enabled = True, control_mode = 1,
       position_mdeg = [2147393648, 0, 0, 0, 0, 0] \<rparr>"

definition error_status :: ArmStatus where
  "error_status =
     \<lparr> error_code = 3, enabled = False, control_mode = 0,
       position_mdeg = [0, 0, 0, 0, 0, 0] \<rparr>"

definition empty_status :: ArmStatus where
  "empty_status =
     \<lparr> error_code = 0, enabled = True, control_mode = 1, position_mdeg = [] \<rparr>"

text \<open>
  The state of a run on a simulated device once the link is up: the interface was
  created, the port connected (200 ms), the first link poll succeeded and the firmware
  version was asked for (100 ms).
\<close>

definition linked :: "int state" where
  "linked =
     \<lparr> world = 300,
       trace = [NewInterface ''can0'' True, ConnectPort True, SleepFor 200,
                ShutdownRead False, GetConnectStatus True False, GetPiperFirmwareVersion,
                SleepFor 100, GetCachedFirmwareVersion None] \<rparr>"

text \<open>A device whose arm reports error 3 until the reset, and no status after it.\<close>

definition silent_after_reset :: "int Device" where
  "silent_after_reset =
     sim_device (\<lambda>t. False) (\<lambda>t. (True, False))
       (\<lambda>t. if t < 800 then Some error_status else None) (\<lambda>t. True)"

text \<open>
  From \<open>s\<close> to \<open>s'\<close> the record grew without a read of the flag that found it set;
  and a step that ends in \<open>s'\<close> with outcome \<open>r\<close> treated cancellation as
  \<open>cancel_ok\<close> says.
\<close>

definition quiet :: "'w state \<Rightarrow> 'w state \<Rightarrow> bool" where
  "quiet s s' \<longleftrightarrow> (\<exists>evs. trace s' = trace s @ evs \<and> ShutdownRead True \<notin> set evs)"

definition cancel_post :: "'w state \<Rightarrow> outcome \<times> 'w state \<Rightarrow> bool" where
  "cancel_post s y \<longleftrightarrow> (\<exists>evs. trace (snd y) = trace s @ evs \<and> cancel_ok evs (fst y))"


text \<open>A device whose arm is healthy and linked but never confirms the enable.\<close>

definition never_enabled :: "int Device" where
  "never_enabled =
     sim_device (\<lambda>t. False) (\<lambda>t. (True, False)) (\<lambda>t. Some near_target_status) (\<lambda>t. False)"

text \<open>
  A healthy, linked, enabled device whose arm stays one joint off the target of
  \<open>main\<close>: no homing attempt converges.
\<close>

definition never_converging :: "int Device" where
  "never_converging =
     sim_device (\<lambda>t. False) (\<lambda>t. (True, False)) (\<lambda>t. Some off_target_status) (\<lambda>t. True)"

text \<open>
  A device that is healthy until the first move command has been sent (400 ms into the
  run) and reports arm error 3 from then on.
\<close>

definition error_during_homing :: "int Device" where
  "error_during_homing =
     sim_device (\<lambda>t. False) (\<lambda>t. (True, False))
       (\<lambda>t. if t < 400 then Some near_target_status else Some error_status) (\<lambda>t. True)"

text \<open>
  The state of a run on a simulated device with a healthy arm once the motors are
  enabled: the status check and the enable step took no time.
\<close>

definition enabled_state :: "int state" where
  "enabled_state =
     \<lparr> world = 300,
       trace = trace linked @ [GetArmStatus (Some near_target_status), EnableArm 7 True,
                               EnablePiper True] \<rparr>"

text \<open>
  On a simulated device, from \<open>enabled_state\<close> with the configuration of \<open>main\<close>:
  the state when the first move command has been acknowledged, and the state after one
  poll of the convergence wait that fetched \<open>error_status\<close>.
\<close>

definition move_sent :: "int state" where
  "move_sent =
     \<lparr> world = 400,
       trace = trace enabled_state @
         [ShutdownRead False, MotionControl2 [1, 1, 30, 0, 0, 0] True, SleepFor 100,
          MoveJoint [- 90000, 0, 0, 0, 0, 0] True] \<rparr>"

definition arm_error_seen :: "int state" where
  "arm_error_seen =
     \<lparr> world = 400,
       trace = trace move_sent @ [ShutdownRead False, GetArmStatus (Some error_status)] \<rparr>"

text \<open>The configuration of \<open>main\<close> with a homing timeout of 100 ms, two polls long.\<close>

definition quick_Config :: Config where
  "quick_Config = main_Config \<lparr> home_timeout := 100 \<rparr>"

text \<open>
  The device \<open>never_converging\<close> with an enable command that is never acknowledged.
\<close>

definition unacknowledged :: "int Device" where
  "unacknowledged = never_converging \<lparr> enable_arm := (\<lambda>n t. (False, t)) \<rparr>"

text \<open>
  Devices whose arm reports error 3 at the status check: for ever, or until the
  reset has settled (800 ms into the run).
\<close>

definition persistent_error :: "int Device" where
  "persistent_error =
     sim_device (\<lambda>t. False) (\<lambda>t. (True, False)) (\<lambda>t. Some error_status) (\<lambda>t. True)"

definition cleared_by_reset :: "int Device" where
  "cleared_by_reset =
     sim_device (\<lambda>t. False) (\<lambda>t. (True, False))
       (\<lambda>t. if t < 800 then Some error_status else Some near_target_status) (\<lambda>t. True)"

text \<open>The state after a status check that reset the arm, with the re-fetched status.\<close>

definition after_reset :: "ArmStatus \<Rightarrow> int state" where
  "after_reset st =
     \<lparr> world = 800,
       trace = trace linked @ [GetArmStatus (Some error_status), ResetArm, SleepFor 500,
                               GetArmStatus (Some st)] \<rparr>"

text \<open>
  Devices that fail early: the interface cannot be created, the port cannot be
  connected, the link never comes up.
\<close>

definition no_bus :: "int Device" where
  "no_bus = never_converging \<lparr> new_interface := (\<lambda>name t. (False, t)) \<rparr>"

definition no_port :: "int Device" where
  "no_port = never_converging \<lparr> connect_port := (\<lambda>t. (False, t)) \<rparr>"

definition never_linked :: "int Device" where
  "never_linked =
     sim_device (\<lambda>t. False) (\<lambda>t. (False, False)) (\<lambda>t. Some near_target_status) (\<lambda>t. True)"

text \<open>
  A device that never confirms the enable and whose cancellation flag is set from 300 ms
  on, after the link is up; and a healthy device whose arm is already at the target of
  \<open>main\<close>.
\<close>

definition cancelled_in_enable :: "int Device" where
  "cancelled_in_enable =
     sim_device (\<lambda>t. 300 \<le> t) (\<lambda>t. (True, False)) (\<lambda>t. Some near_target_status)
       (\<lambda>t. False)"

definition healthy :: "int Device" where
  "healthy =
     sim_device (\<lambda>t. False) (\<lambda>t. (True, False)) (\<lambda>t. Some near_target_status) (\<lambda>t. True)"

section \<open>Facts about the environment operations\<close>

lemma trace_emit [simp]: "trace (emit e w s) = trace s @ [e]"
  by (simp add: emit_def)

lemma world_emit [simp]: "world (emit e w s) = w"
  by (simp add: emit_def)

lemma now_emit [simp]: "now dev (emit e w s) = steady_clock_now dev w"
  by (simp add: now_def)

lemma read_shutdownD:
  "read_shutdown dev s = (flag, s1) \<Longrightarrow>
     flag = g_shutdown_requested dev (world s) \<and> s1 = emit (ShutdownRead flag) (world s) s"
  by (auto simp: read_shutdown_def Let_def)

lemma do_new_interfaceD:
  "do_new_interface dev name s = (ok, s1) \<Longrightarrow>
     \<exists>w. new_interface dev name (world s) = (ok, w) \<and> s1 = emit (NewInterface name ok) w s"
  by (auto simp: do_new_interface_def split: prod.splits)

lemma do_connect_portD:
  "do_connect_port dev s = (ok, s1) \<Longrightarrow>
     \<exists>w. connect_port dev (world s) = (ok, w) \<and> s1 = emit (ConnectPort ok) w s"
  by (auto simp: do_connect_port_def split: prod.splits)

lemma do_get_connect_statusD:
  "do_get_connect_status dev s = ((connected, stale), s1) \<Longrightarrow>
     \<exists>w. get_connect_status dev (world s) = ((connected, stale), w)
        \<and> s1 = emit (GetConnectStatus connected stale) w s"
  by (auto simp: do_get_connect_status_def split: prod.splits)

lemma do_get_cached_firmware_versionD:
  "do_get_cached_firmware_version dev s = (fw, s1) \<Longrightarrow>
     \<exists>w. get_cached_firmware_version dev (world s) = (fw, w)
        \<and> s1 = emit (GetCachedFirmwareVersion fw) w s"
  by (auto simp: do_get_cached_firmware_version_def split: prod.splits)

lemma do_get_arm_statusD:
  "do_get_arm_status dev s = (st, s1) \<Longrightarrow>
     \<exists>w. get_arm_status dev (world s) = (st, w) \<and> s1 = emit (GetArmStatus st) w s"
  by (auto simp: do_get_arm_status_def split: prod.splits)

lemma do_enable_armD:
  "do_enable_arm dev n s = (ok, s1) \<Longrightarrow>
     \<exists>w. enable_arm dev n (world s) = (ok, w) \<and> s1 = emit (EnableArm n ok) w s"
  by (auto simp: do_enable_arm_def split: prod.splits)

lemma do_enable_piperD:
  "do_enable_piper dev s = (ok, s1) \<Longrightarrow>
     \<exists>w. enable_piper dev (world s) = (ok, w) \<and> s1 = emit (EnablePiper ok) w s"
  by (auto simp: do_enable_piper_def split: prod.splits)

lemma do_motion_control_2D:
  "do_motion_control_2 dev args s = (ok, s1) \<Longrightarrow>
     \<exists>w. motion_control_2 dev args (world s) = (ok, w)
        \<and> s1 = emit (MotionControl2 args ok) w s"
  by (auto simp: do_motion_control_2_def split: prod.splits)

lemma do_move_jointD:
  "do_move_joint dev joints s = (ok, s1) \<Longrightarrow>
     \<exists>w. move_joint dev joints (world s) = (ok, w) \<and> s1 = emit (MoveJoint joints ok) w s"
  by (auto simp: do_move_joint_def split: prod.splits)

lemmas opD = read_shutdownD do_new_interfaceD do_connect_portD do_get_connect_statusD
  do_get_cached_firmware_versionD do_get_arm_statusD do_enable_armD do_enable_piperD
  do_motion_control_2D do_move_jointD

lemmas op_defs = do_sleep_def do_reset_arm_def do_get_piper_firmware_version_def

lemmas do_defs = read_shutdown_def do_new_interface_def do_connect_port_def
  do_get_connect_status_def do_get_cached_firmware_version_def do_get_arm_status_def
  do_enable_arm_def do_enable_piper_def do_motion_control_2_def do_move_joint_def
  do_sleep_def do_reset_arm_def do_get_piper_firmware_version_def

section \<open>The convergence check\<close>

lemma joint_diff_Some:
  "\<bar>sint p - sint t\<bar> < 2 ^ 31 \<Longrightarrow> joint_diff p t = Some \<bar>sint p - sint t\<bar>"
  by (auto simp: joint_diff_def Let_def)

lemma all_at_target_True:
  "(\<forall>i. i < length ps \<and> i < length ts \<longrightarrow> \<bar>sint (ps ! i) - sint (ts ! i)\<bar> \<le> 1000)
     \<Longrightarrow> all_at_target ps ts = Some True"
proof (induction ps ts rule: all_at_target.induct)
  case (1 p ps t ts)
  from 1(2) have h: "\<bar>sint p - sint t\<bar> \<le> 1000" by force
  from 1(2) have rest:
    "\<forall>i. i < length ps \<and> i < length ts \<longrightarrow> \<bar>sint (ps ! i) - sint (ts ! i)\<bar> \<le> 1000"
    by fastforce
  have "joint_diff p t = Some \<bar>sint p - sint t\<bar>"
    using h by (intro joint_diff_Some) simp
  with h rest 1(1) show ?case by (simp add: kPositionTolerance_def)
qed simp_all

lemma all_at_target_False:
  "i < length ps \<Longrightarrow> i < length ts \<Longrightarrow> 1000 < \<bar>sint (ps ! i) - sint (ts ! i)\<bar>
     \<Longrightarrow> \<bar>sint (ps ! i) - sint (ts ! i)\<bar> < 2 ^ 31
     \<Longrightarrow> (\<forall>j<i. \<bar>sint (ps ! j) - sint (ts ! j)\<bar> \<le> 1000)
     \<Longrightarrow> all_at_target ps ts = Some False"
proof (induction ps ts arbitrary: i rule: all_at_target.induct)
  case (1 p ps t ts)
  show ?case
  proof (cases i)
    case 0
    with 1(4,5) have "joint_diff p t = Some \<bar>sint p - sint t\<bar>" "1000 < \<bar>sint p - sint t\<bar>"
      by (simp_all add: joint_diff_Some)
    then show ?thesis by (simp add: kPositionTolerance_def)
  next
    case (Suc k)
    with 1(6) have h: "\<bar>sint p - sint t\<bar> \<le> 1000" by force
    then have jd: "joint_diff p t = Some \<bar>sint p - sint t\<bar>"
      by (intro joint_diff_Some) simp
    have "all_at_target ps ts = Some False"
    proof (rule 1(1)[OF jd _, of k])
      show "\<not> kPositionTolerance < \<bar>sint p - sint t\<bar>"
        using h by (simp add: kPositionTolerance_def)
      show "k < length ps" "k < length ts"
        using 1(2,3) Suc by simp_all
      show "1000 < \<bar>sint (ps ! k) - sint (ts ! k)\<bar>" "\<bar>sint (ps ! k) - sint (ts ! k)\<bar> < 2 ^ 31"
        using 1(4,5) Suc by simp_all
      show "\<forall>j<k. \<bar>sint (ps ! j) - sint (ts ! j)\<bar> \<le> 1000"
        using 1(6) Suc by fastforce
    qed
    with jd h show ?thesis by (simp add: kPositionTolerance_def)
  qed
qed simp_all

lemma waitHomingDone_loop_poll:
  assumes "now dev s < deadline" and "\<not> g_shutdown_requested dev (world s)"
    and "get_arm_status dev (world s) = (arm_status, w)"
    and "homing_poll cfg arm_status = Return r"
  shows "waitHomingDone_loop dev cfg deadline s =
           Some (r, emit (GetArmStatus arm_status) w (emit (ShutdownRead False) (world s) s))"
  using assms
  by (subst waitHomingDone_loop.simps) (simp add: read_shutdown_def do_get_arm_status_def)

text \<open>
  Where the subtraction of line 417 stays in the range of \<open>int32_t\<close> the check is
  the tolerance window: for an arm status with \<open>error_code = 0\<close>, when every joint
  present in both the reported and the target vector is within 1000 of its target the
  poll ends the wait with \<open>OK\<close>; when the first joint further than 1000 from its
  target differs from it by less than \<open>2 ^ 31\<close> the poll does not report convergence
  and the wait goes on.
\<close>

lemma homing_poll_in_range:
  "error_code st = 0 \<longrightarrow>
     ((\<forall>i. i < length (position_mdeg st) \<and> i < length (target_joints cfg) \<longrightarrow>
           \<bar>sint (position_mdeg st ! i) - sint (target_joints cfg ! i)\<bar> \<le> 1000)
        \<longrightarrow> homing_poll cfg (Some st) = Return (Returns OK))
   \<and> ((\<exists>i. i < length (position_mdeg st) \<and> i < length (target_joints cfg)
            \<and> 1000 < \<bar>sint (position_mdeg st ! i) - sint (target_joints cfg ! i)\<bar>
            \<and> \<bar>sint (position_mdeg st ! i) - sint (target_joints cfg ! i)\<bar> < 2 ^ 31
            \<and> (\<forall>j<i. \<bar>sint (position_mdeg st ! j) - sint (target_joints cfg ! j)\<bar> \<le> 1000))
        \<longrightarrow> homing_poll cfg (Some st) = KeepWaiting)"
  by (auto simp: homing_poll_def all_at_target_True all_at_target_False)

text \<open>
  C4, where the code fails it. With the target of \<open>main\<close> and a status with
  \<open>error_code = 0\<close> whose first joint is reported at \<open>2147393648\<close>, that joint is
  \<open>2 ^ 31\<close> from its target, far outside the tolerance of 1000, and the claim asks
  for non-convergence. The code computes \<open>std::abs(position - target)\<close> in
  \<open>int32_t\<close> (line 417): the subtraction overflows, which is undefined, and the poll
  does not go on waiting. With two's complement wrap-around the difference is
  \<open>- 2147483648\<close>, its negation is \<open>- 2147483648\<close> again, and
  \<open>diff > kPositionTolerance\<close> is false: the joint counts as at its target.
\<close>

theorem homing_poll_overflow:
  "error_code far_off_status = 0
   \<and> \<bar>sint (position_mdeg far_off_status ! 0) - sint (target_joints main_Config ! 0)\<bar>
       = 2147483648
   \<and> homing_poll main_Config (Some far_off_status) = Return (Undefined SignedOverflow)
   \<and> homing_poll main_Config (Some far_off_status) \<noteq> KeepWaiting
   \<and> sint (position_mdeg far_off_status ! 0 - target_joints main_Config ! 0) = - 2147483648
   \<and> sint (- (position_mdeg far_off_status ! 0 - target_joints main_Config ! 0))
       = - 2147483648
   \<and> \<not> kPositionTolerance
         < sint (- (position_mdeg far_off_status ! 0 - target_joints main_Config ! 0))"
  by (simp add: far_off_status_def main_Config_def default_Config_def homing_poll_def
      joint_diff_def kPositionTolerance_def)

text \<open>
  C10. A status with \<open>error_code = 0\<close> and an empty position vector is taken as
  converged: the poll ends the wait with \<open>OK\<close>, whatever the target; so a wait that is
  before its deadline, reads the flag unset and fetches such a status returns \<open>OK\<close>
  on that poll.
\<close>

theorem homing_poll_empty_report:
  "error_code st = 0 \<and> position_mdeg st = [] \<longrightarrow>
     homing_poll cfg (Some st) = Return (Returns OK)
   \<and> (now dev s < deadline \<and> \<not> g_shutdown_requested dev (world s)
        \<and> get_arm_status dev (world s) = (Some st, w) \<longrightarrow>
      waitHomingDone_loop dev cfg deadline s =
        Some (Returns OK,
              emit (GetArmStatus (Some st)) w (emit (ShutdownRead False) (world s) s)))"
proof (intro impI, elim conjE)
  assume st: "error_code st = 0" "position_mdeg st = []"
  then have poll: "homing_poll cfg (Some st) = Return (Returns OK)"
    by (simp add: homing_poll_def)
  then show "homing_poll cfg (Some st) = Return (Returns OK)
   \<and> (now dev s < deadline \<and> \<not> g_shutdown_requested dev (world s)
        \<and> get_arm_status dev (world s) = (Some st, w) \<longrightarrow>
      waitHomingDone_loop dev cfg deadline s =
        Some (Returns OK,
              emit (GetArmStatus (Some st)) w (emit (ShutdownRead False) (world s) s)))"
    by (auto intro: waitHomingDone_loop_poll)
qed

theorem homing_poll_empty_report_witness:
  "error_code empty_status = 0 \<and> position_mdeg empty_status = []
   \<and> homing_poll main_Config (Some empty_status) = Return (Returns OK)
   \<and> waitHomingDone_loop
        (sim_device (\<lambda>t. False) (\<lambda>t. (True, False)) (\<lambda>t. Some empty_status) (\<lambda>t. True))
        main_Config 60000 boot
      = Some (Returns OK,
              \<lparr> world = 0, trace = [ShutdownRead False, GetArmStatus (Some empty_status)] \<rparr>)"
  using homing_poll_empty_report
    [of empty_status main_Config
        "sim_device (\<lambda>t. False) (\<lambda>t. (True, False)) (\<lambda>t. Some empty_status) (\<lambda>t. True)"
        boot 60000 0]
  by (simp add: empty_status_def sim_device_def boot_def now_def emit_def)

text \<open>
  C8. When the first status read of \<open>checkArmStatus\<close> reports an error and the read
  after the reset and the 500 ms delay gives no status, the step has no defined
  outcome: it evaluates \<open>arm_status->enabled\<close> on the empty optional. It neither
  returns \<open>OK\<close> nor any error code, and a run that reached the step ends there
  undefined.
\<close>

theorem checkArmStatus_empty_refetch:
  assumes "get_arm_status dev (world s) = (Some st, w1)"
    and "error_code st \<noteq> 0"
    and "get_arm_status dev (sleep_for dev 500 (reset_arm dev w1)) = (None, w2)"
  shows "fst (checkArmStatus dev s) = Undefined EmptyOptionalAccess
       \<and> trace (snd (checkArmStatus dev s)) =
           trace s @ [GetArmStatus (Some st), ResetArm, SleepFor 500, GetArmStatus None]
       \<and> (createInterface dev cfg s0 = (Returns OK, s1) \<and> connectPort dev s1 = (Returns OK, s2)
            \<and> waitForConnection dev cfg s2 = Some (Returns OK, s) \<longrightarrow>
          run dev cfg s0 = Some (Undefined EmptyOptionalAccess, snd (checkArmStatus dev s)))"
proof -
  have step: "checkArmStatus dev s =
     (Undefined EmptyOptionalAccess,
      emit (GetArmStatus None) w2
        (emit (SleepFor 500) (sleep_for dev 500 (reset_arm dev w1))
           (emit ResetArm (reset_arm dev w1) (emit (GetArmStatus (Some st)) w1 s))))"
    using assms by (simp add: checkArmStatus_def do_defs)
  then show ?thesis
    by (auto simp: run_def)
qed

lemma sim_steps_to_linked:
  "createInterface (sim_device flag link arm en) main_Config boot =
     (Returns OK, \<lparr> world = 0, trace = [NewInterface ''can0'' True] \<rparr>)"
  "connectPort (sim_device flag link arm en)
       \<lparr> world = 0, trace = [NewInterface ''can0'' True] \<rparr> =
     (Returns OK,
      \<lparr> world = 200, trace = [NewInterface ''can0'' True, ConnectPort True, SleepFor 200] \<rparr>)"
  "\<not> flag 200 \<Longrightarrow> link 200 = (True, False) \<Longrightarrow>
   waitForConnection (sim_device flag link arm en) main_Config
       \<lparr> world = 200, trace = [NewInterface ''can0'' True, ConnectPort True, SleepFor 200] \<rparr> =
     Some (Returns OK, linked)"
  by (simp_all add: createInterface_def connectPort_def waitForConnection_def
      waitForConnection_loop.simps do_defs sim_device_def boot_def main_Config_def
      default_Config_def now_def emit_def linked_def)

theorem checkArmStatus_empty_refetch_witness:
  "fst (checkArmStatus silent_after_reset linked) = Undefined EmptyOptionalAccess
   \<and> trace (snd (checkArmStatus silent_after_reset linked)) =
       trace linked @ [GetArmStatus (Some error_status), ResetArm, SleepFor 500,
                       GetArmStatus None]
   \<and> run silent_after_reset main_Config boot =
       Some (Undefined EmptyOptionalAccess, snd (checkArmStatus silent_after_reset linked))"
proof -
  have 1: "get_arm_status silent_after_reset (world linked) = (Some error_status, 300)"
    and 2: "error_code error_status \<noteq> 0"
    and 3: "get_arm_status silent_after_reset
              (sleep_for silent_after_reset 500 (reset_arm silent_after_reset 300)) = (None, 800)"
    by (simp_all add: silent_after_reset_def sim_device_def linked_def error_status_def)
  show ?thesis
    using checkArmStatus_empty_refetch [OF 1 2 3, of main_Config boot
        "\<lparr> world = 0, trace = [NewInterface ''can0'' True] \<rparr>"
        "\<lparr> world = 200, trace = [NewInterface ''can0'' True, ConnectPort True, SleepFor 200] \<rparr>"]
      sim_steps_to_linked [of "\<lambda>t. False" "\<lambda>t. (True, False)"
        "\<lambda>t. if t < 800 then Some error_status else None" "\<lambda>t. True"]
    by (simp add: silent_after_reset_def)
qed

section \<open>What each step adds to the record\<close>

lemma emits_refl: "emits k dev s s"
  by (simp add: emits_def)

lemma emits_trans: "emits k dev s s1 \<Longrightarrow> emits k dev s1 s2 \<Longrightarrow> emits k dev s s2"
  by (auto simp: emits_def)

lemma emits_mono: "emits k dev s s' \<Longrightarrow> k \<le> k' \<Longrightarrow> emits k' dev s s'"
  by (fastforce simp: emits_def list_all_iff)

lemma emits_emit:
  "earliest_step e \<le> k \<Longrightarrow> answers dev e \<Longrightarrow> emits k dev s (emit e w s)"
  by (simp add: emits_def)

lemma emits_new_events:
  "emits k dev s s' \<Longrightarrow>
     trace s' = trace s @ new_events s s'
     \<and> list_all (\<lambda>e. earliest_step e \<le> k \<and> answers dev e) (new_events s s')"
  by (auto simp: emits_def new_events_def)

lemma emits_read_shutdown: "read_shutdown dev s = (flag, s1) \<Longrightarrow> emits 3 dev s s1"
  by (auto dest!: read_shutdownD intro!: emits_emit)

lemma emits_do_sleep: "emits 2 dev s (do_sleep dev d s)"
  by (auto simp: do_sleep_def intro!: emits_emit)

lemma emits_do_new_interface: "do_new_interface dev name s = (ok, s1) \<Longrightarrow> emits 1 dev s s1"
  by (auto dest!: do_new_interfaceD intro!: emits_emit exI [where x = "world s"])

lemma emits_do_connect_port: "do_connect_port dev s = (ok, s1) \<Longrightarrow> emits 2 dev s s1"
  by (auto dest!: do_connect_portD intro!: emits_emit exI [where x = "world s"])

lemma emits_do_get_connect_status:
  "do_get_connect_status dev s = (r, s1) \<Longrightarrow> emits 3 dev s s1"
  by (cases r) (auto dest!: do_get_connect_statusD intro!: emits_emit exI [where x = "world s"])

lemma emits_do_get_piper_firmware_version:
  "emits 3 dev s (do_get_piper_firmware_version dev s)"
  by (auto simp: do_get_piper_firmware_version_def intro!: emits_emit)

lemma emits_do_get_cached_firmware_version:
  "do_get_cached_firmware_version dev s = (fw, s1) \<Longrightarrow> emits 3 dev s s1"
  by (auto dest!: do_get_cached_firmware_versionD intro!: emits_emit exI [where x = "world s"])

lemma emits_do_get_arm_status: "do_get_arm_status dev s = (st, s1) \<Longrightarrow> emits 4 dev s s1"
  by (auto dest!: do_get_arm_statusD intro!: emits_emit exI [where x = "world s"])

lemma emits_do_reset_arm: "emits 4 dev s (do_reset_arm dev s)"
  by (auto simp: do_reset_arm_def intro!: emits_emit)

lemma emits_do_enable_arm: "do_enable_arm dev n s = (ok, s1) \<Longrightarrow> emits 5 dev s s1"
  by (auto dest!: do_enable_armD intro!: emits_emit exI [where x = "world s"])

lemma emits_do_enable_piper: "do_enable_piper dev s = (ok, s1) \<Longrightarrow> emits 5 dev s s1"
  by (auto dest!: do_enable_piperD intro!: emits_emit exI [where x = "world s"])

lemma emits_do_motion_control_2:
  "do_motion_control_2 dev args s = (ok, s1) \<Longrightarrow> emits 6 dev s s1"
  by (auto dest!: do_motion_control_2D intro!: emits_emit exI [where x = "world s"])

lemma emits_do_move_joint: "do_move_joint dev joints s = (ok, s1) \<Longrightarrow> emits 6 dev s s1"
  by (auto dest!: do_move_jointD intro!: emits_emit exI [where x = "world s"])

lemma createInterface_emits: "createInterface dev cfg s = (r, s') \<Longrightarrow> emits 1 dev s s'"
  by (auto simp: createInterface_def split: prod.splits if_splits
      dest: emits_do_new_interface)

lemma connectPort_emits: "connectPort dev s = (r, s') \<Longrightarrow> emits 2 dev s s'"
  by (auto simp: connectPort_def split: prod.splits if_splits
      dest: emits_do_connect_port intro: emits_trans [OF _ emits_do_sleep])

lemma waitForConnection_loop_emits:
  "waitForConnection_loop dev cfg deadline s = Some y \<Longrightarrow> emits 3 dev s (snd y)"
proof (induction rule: waitForConnection_loop.raw_induct [rotated 1, consumes 1])
  case (1 loop dev cfg deadline s y)
  show ?case
  proof (cases "now dev s < deadline")
    case False
    with 1(2) show ?thesis by (auto simp: emits_refl)
  next
    case True
    obtain flag s1 where rs: "read_shutdown dev s = (flag, s1)" by force
    obtain c s2 where gc: "do_get_connect_status dev s1 = (c, s2)" by (metis surj_pair)
    obtain fw s5 where fw: "do_get_cached_firmware_version dev
        (do_sleep dev 100 (do_get_piper_firmware_version dev s2)) = (fw, s5)" by force
    note e1 = emits_read_shutdown [OF rs]
    note e2 = emits_trans [OF e1 emits_do_get_connect_status [OF gc]]
    note e3 = emits_trans [OF e2 emits_do_get_piper_firmware_version]
    note e4 = emits_trans [OF e3 emits_mono [OF emits_do_sleep]]
    note e5 = emits_trans [OF e4 emits_do_get_cached_firmware_version [OF fw]]
    note e6 = emits_trans [OF e2 emits_mono [OF emits_do_sleep]]
    show ?thesis
      using 1(2) True rs gc fw e1 e5 e6 [of "status_poll_interval cfg"]
      by (auto simp: Let_def split: prod.splits if_splits dest!: 1(1)
          intro: emits_trans)
  qed
qed

lemma waitForConnection_emits:
  "waitForConnection dev cfg s = Some (r, s') \<Longrightarrow> emits 3 dev s s'"
  by (auto simp: waitForConnection_def dest: waitForConnection_loop_emits)

lemma checkArmStatus_emits: "checkArmStatus dev s = (r, s') \<Longrightarrow> emits 4 dev s s'"
proof -
  assume a: "checkArmStatus dev s = (r, s')"
  obtain st1 s1 where g1: "do_get_arm_status dev s = (st1, s1)" by force
  obtain st2 s4 where g2:
    "do_get_arm_status dev (do_sleep dev 500 (do_reset_arm dev s1)) = (st2, s4)" by force
  note e1 = emits_do_get_arm_status [OF g1]
  note e2 = emits_trans [OF e1 emits_do_reset_arm]
  note e3 = emits_trans [OF e2 emits_mono [OF emits_do_sleep]]
  note e4 = emits_trans [OF e3 emits_do_get_arm_status [OF g2]]
  show ?thesis
    using a g1 g2 e1 e4
    by (auto simp: checkArmStatus_def Let_def split: option.splits if_splits)
qed

lemma enable_fast_loop_emits:
  "enable_fast_loop dev retry_count s = (res, n, s') \<Longrightarrow> emits 5 dev s s'"
proof (induction dev retry_count s arbitrary: res n s' rule: enable_fast_loop.induct)
  case (1 dev retry_count s)
  obtain en s1 where ep: "do_enable_piper dev s = (en, s1)" by force
  obtain flag s2 where rs: "read_shutdown dev s1 = (flag, s2)" by force
  note e1 = emits_do_enable_piper [OF ep]
  note e2 = emits_trans [OF e1 emits_mono [OF emits_read_shutdown [OF rs]]]
  note e3 = emits_trans [OF e2 emits_mono [OF emits_do_sleep]]
  show ?case
  proof (cases "\<not> en \<and> retry_count < MAX_RETRIES \<and> \<not> flag")
    case True
    then have "enable_fast_loop dev (retry_count + 1) (do_sleep dev 10 s2) = (res, n, s')"
      using 1(2) ep rs by (subst (asm) enable_fast_loop.simps) simp
    from 1(1) [OF ep [symmetric] refl _ rs [symmetric] refl _ this] True
    have "emits 5 dev (do_sleep dev 10 s2) s'" by simp
    with e3 [of 10] show ?thesis by (auto intro: emits_trans)
  next
    case False
    then show ?thesis
      using 1(2) ep rs e1 e2
      by (subst (asm) enable_fast_loop.simps) (auto split: if_splits)
  qed
qed

lemma enable_long_loop_emits:
  assumes "enable_long_loop dev cfg deadline s = Some y"
  shows "emits 5 dev s (snd y)"
  using assms
proof (induction rule: enable_long_loop.raw_induct [rotated 1, consumes 1])
  case (1 loop dev cfg deadline s y)
  show ?case
  proof (cases "now dev s < deadline")
    case False
    with 1(2) show ?thesis by (auto simp: emits_refl)
  next
    case True
    obtain flag s1 where rs: "read_shutdown dev s = (flag, s1)" by force
    obtain en s2 where ep: "do_enable_piper dev s1 = (en, s2)" by force
    note e1 = emits_mono [OF emits_read_shutdown [OF rs], of 5]
    note e2 = emits_trans [OF e1 emits_do_enable_piper [OF ep]]
    note e3 = emits_trans [OF e2 emits_mono [OF emits_do_sleep]]
    show ?thesis
      using 1(2) True rs ep e1 e2 e3 [of "status_poll_interval cfg"]
      by (auto simp: Let_def split: prod.splits if_splits dest!: 1(1) intro: emits_trans)
  qed
qed

lemma enableMotors_emits:
  assumes "enableMotors dev cfg s = Some (r, s')"
  shows "emits 5 dev s s'"
proof -
  obtain ok s1 where ea: "do_enable_arm dev 7 s = (ok, s1)" by force
  obtain res n s2 where fl: "enable_fast_loop dev 0 s1 = (res, n, s2)"
    by (metis surj_pair)
  note e1 = emits_do_enable_arm [OF ea]
  note e2 = emits_trans [OF e1 enable_fast_loop_emits [OF fl]]
  show ?thesis
    using assms ea fl e2
    by (auto simp: enableMotors_def split: option.splits if_splits
        dest!: enable_long_loop_emits intro: emits_trans)
qed

lemma waitHomingDone_loop_emits:
  assumes "waitHomingDone_loop dev cfg deadline s = Some y"
  shows "emits 4 dev s (snd y)"
  using assms
proof (induction rule: waitHomingDone_loop.raw_induct [rotated 1, consumes 1])
  case (1 loop dev cfg deadline s y)
  show ?case
  proof (cases "now dev s < deadline")
    case False
    with 1(2) show ?thesis by (auto simp: emits_refl)
  next
    case True
    obtain flag s1 where rs: "read_shutdown dev s = (flag, s1)" by force
    obtain st s2 where ga: "do_get_arm_status dev s1 = (st, s2)" by force
    note e1 = emits_mono [OF emits_read_shutdown [OF rs], of 4]
    note e2 = emits_trans [OF e1 emits_do_get_arm_status [OF ga]]
    note e3 = emits_trans [OF e2 emits_mono [OF emits_do_sleep]]
    show ?thesis
      using 1(2) True rs ga e1 e2 e3 [of "status_poll_interval cfg"]
      by (auto simp: Let_def split: prod.splits if_splits poll.splits
          dest!: 1(1) intro: emits_trans)
  qed
qed

lemma waitHomingDone_emits:
  "waitHomingDone dev cfg s = Some (r, s') \<Longrightarrow> emits 4 dev s s'"
  by (auto simp: waitHomingDone_def dest: waitHomingDone_loop_emits)

lemma performHoming_loop_emits:
  assumes "performHoming_loop dev cfg retry s = Some y"
  shows "emits 6 dev s (snd y)"
  using assms
proof (induction rule: performHoming_loop.raw_induct [rotated 1, consumes 1])
  case (1 loop dev cfg retry s y)
  show ?case
  proof (cases "retry < home_retry_count cfg")
    case False
    with 1(2) show ?thesis by (auto simp: emits_refl)
  next
    case True
    obtain flag s1 where rs: "read_shutdown dev s = (flag, s1)" by force
    define s2 where "s2 = (if 0 < retry then do_sleep dev 1000 s1 else s1)"
    obtain mode_ok s3 where mc:
      "do_motion_control_2 dev [1, 1, motion_speed_percent cfg, 0, 0, 0] s2 = (mode_ok, s3)"
      by force
    obtain move_ok s5 where mj:
      "do_move_joint dev (target_joints cfg) (do_sleep dev 100 s3) = (move_ok, s5)"
      by force
    note e1 = emits_mono [OF emits_read_shutdown [OF rs], of 6]
    have "emits 6 dev s1 s2"
      by (auto simp: s2_def emits_refl intro: emits_mono [OF emits_do_sleep])
    note e2 = emits_trans [OF e1 this]
    note e3 = emits_trans [OF e2 emits_do_motion_control_2 [OF mc]]
    note e4 = emits_trans [OF e3 emits_mono [OF emits_do_sleep]]
    note e5 = emits_trans [OF e4 emits_do_move_joint [OF mj]]
    have wait: "emits 6 dev s s6" if "waitHomingDone dev cfg s5 = Some (wr, s6)" for wr s6
      using emits_trans [OF e5 emits_mono [OF waitHomingDone_emits [OF that]]] by simp
    show ?thesis
      using 1(2) True rs mc mj e1 e3 e5
      by (auto simp: Let_def s2_def [symmetric] split: prod.splits if_splits outcome.splits
          bind_splits dest!: 1(1) wait intro: emits_trans)
  qed
qed

lemma performHoming_emits:
  "performHoming dev cfg s = Some (r, s') \<Longrightarrow> emits 6 dev s s'"
  by (auto simp: performHoming_def dest: performHoming_loop_emits)

section \<open>Cancellation\<close>








lemma cancel_post_new_events:
  "cancel_post s (r, s') \<Longrightarrow> cancel_ok (new_events s s') r"
  by (auto simp: cancel_post_def new_events_def)



























lemma run_cases:
  assumes "run dev cfg s = Some y"
  obtains
    (create) "createInterface dev cfg s = y" "fst y \<noteq> Returns OK"
  | (connect) s1 where "createInterface dev cfg s = (Returns OK, s1)"
      "connectPort dev s1 = y" "fst y \<noteq> Returns OK"
  | (link) s1 s2 where "createInterface dev cfg s = (Returns OK, s1)"
      "connectPort dev s1 = (Returns OK, s2)"
      "waitForConnection dev cfg s2 = Some y" "fst y \<noteq> Returns OK"
  | (status) s1 s2 s3 where "createInterface dev cfg s = (Returns OK, s1)"
      "connectPort dev s1 = (Returns OK, s2)"
      "waitForConnection dev cfg s2 = Some (Returns OK, s3)"
      "checkArmStatus dev s3 = y" "fst y \<noteq> Returns OK"
  | (enable) s1 s2 s3 s4 where "createInterface dev cfg s = (Returns OK, s1)"
      "connectPort dev s1 = (Returns OK, s2)"
      "waitForConnection dev cfg s2 = Some (Returns OK, s3)"
      "checkArmStatus dev s3 = (Returns OK, s4)"
      "enableMotors dev cfg s4 = Some y" "fst y \<noteq> Returns OK"
  | (home) s1 s2 s3 s4 s5 where "createInterface dev cfg s = (Returns OK, s1)"
      "connectPort dev s1 = (Returns OK, s2)"
      "waitForConnection dev cfg s2 = Some (Returns OK, s3)"
      "checkArmStatus dev s3 = (Returns OK, s4)"
      "enableMotors dev cfg s4 = Some (Returns OK, s5)"
      "performHoming dev cfg s5 = Some y"
proof -
  obtain r1 s1 where c1: "createInterface dev cfg s = (r1, s1)" by force
  obtain r2 s2 where c2: "connectPort dev s1 = (r2, s2)" by force
  show thesis
  proof (cases "r1 = Returns OK")
    case False
    with assms c1 show thesis by (intro create) (auto simp: run_def)
  next
    case r1: True
    show thesis
    proof (cases "r2 = Returns OK")
      case False
      with assms c1 c2 r1 show thesis by (intro connect [of s1]) (auto simp: run_def)
    next
      case r2: True
      from assms c1 c2 r1 r2 obtain r3 s3 where
        c3: "waitForConnection dev cfg s2 = Some (r3, s3)"
        by (auto simp: run_def bind_eq_Some_conv)
      show thesis
      proof (cases "r3 = Returns OK")
        case False
        with assms c1 c2 c3 r1 r2 show thesis
          by (intro link [of s1 s2]) (auto simp: run_def)
      next
        case r3: True
        obtain r4 s4 where c4: "checkArmStatus dev s3 = (r4, s4)" by force
        show thesis
        proof (cases "r4 = Returns OK")
          case False
          with assms c1 c2 c3 c4 r1 r2 r3 show thesis
            by (intro status [of s1 s2 s3]) (auto simp: run_def)
        next
          case r4: True
          from assms c1 c2 c3 c4 r1 r2 r3 r4 obtain r5 s5 where
            c5: "enableMotors dev cfg s4 = Some (r5, s5)"
            by (auto simp: run_def bind_eq_Some_conv)
          show thesis
          proof (cases "r5 = Returns OK")
            case False
            with assms c1 c2 c3 c4 c5 r1 r2 r3 r4 show thesis
              by (intro enable [of s1 s2 s3 s4]) (auto simp: run_def)
          next
            case r5: True
            from assms c1 c2 c3 c4 c5 r1 r2 r3 r4 r5 show thesis
              by (intro home [of s1 s2 s3 s4 s5])
                (auto simp: run_def bind_eq_Some_conv split: if_splits)
          qed
        qed
      qed
    qed
  qed
qed


lemma sim_clock [simp]:
  "steady_clock_now (sim_device flag link arm en) = (\<lambda>t. t)"
  "sleep_for (sim_device flag link arm en) = (\<lambda>d t. t + max d 0)"
  "g_shutdown_requested (sim_device flag link arm en) = flag"
  "get_connect_status (sim_device flag link arm en) = (\<lambda>t. (link t, t))"
  "get_arm_status (sim_device flag link arm en) = (\<lambda>t. (arm t, t))"
  "enable_piper (sim_device flag link arm en) = (\<lambda>t. (en t, t))"
  "enable_arm (sim_device flag link arm en) = (\<lambda>n t. (True, t))"
  "motion_control_2 (sim_device flag link arm en) = (\<lambda>args t. (True, t))"
  "move_joint (sim_device flag link arm en) = (\<lambda>joints t. (True, t))"
  "reset_arm (sim_device flag link arm en) = (\<lambda>t. t)"
  "new_interface (sim_device flag link arm en) = (\<lambda>name t. (True, t))"
  "connect_port (sim_device flag link arm en) = (\<lambda>t. (True, t))"
  "get_piper_firmware_version (sim_device flag link arm en) = (\<lambda>t. t)"
  "get_cached_firmware_version (sim_device flag link arm en) = (\<lambda>t. (None, t))"
  by (simp_all add: sim_device_def)

section \<open>The outcomes each step can produce\<close>

lemma waitForConnection_loop_outcomes:
  assumes "waitForConnection_loop dev cfg deadline s = Some y"
  shows "fst y \<in> {Returns OK, Returns CONNECT_FAILED, Returns SIGNAL_INTERRUPTED}"
  using assms
proof (induction rule: waitForConnection_loop.raw_induct [rotated 1, consumes 1])
  case (1 loop dev cfg deadline s y)
  from 1(2) show ?case
    by (auto simp: Let_def split: prod.splits if_splits dest!: 1(1))
qed

lemma checkArmStatus_outcomes:
  "fst (checkArmStatus dev s) \<in> {Returns OK, Returns ARM_ERROR, Undefined EmptyOptionalAccess}"
  by (auto simp: checkArmStatus_def Let_def split: prod.splits option.splits)

lemma enable_fast_loop_outcomes:
  "enable_fast_loop dev retry_count s = (res, n, s') \<Longrightarrow>
     res \<in> {None, Some SIGNAL_INTERRUPTED}"
proof (induction dev retry_count s arbitrary: res n s' rule: enable_fast_loop.induct)
  case (1 dev retry_count s)
  obtain en s1 where ep: "do_enable_piper dev s = (en, s1)" by force
  obtain flag s2 where rs: "read_shutdown dev s1 = (flag, s2)" by force
  show ?case
  proof (cases "\<not> en \<and> retry_count < MAX_RETRIES \<and> \<not> flag")
    case True
    then have "enable_fast_loop dev (retry_count + 1) (do_sleep dev 10 s2) = (res, n, s')"
      using 1(2) ep rs by (subst (asm) enable_fast_loop.simps) simp
    from 1(1) [OF ep [symmetric] refl _ rs [symmetric] refl _ this] True
    show ?thesis by simp
  next
    case False
    then show ?thesis
      using 1(2) ep rs
      by (subst (asm) enable_fast_loop.simps) (auto split: if_splits)
  qed
qed

lemma enable_long_loop_outcomes:
  assumes "enable_long_loop dev cfg deadline s = Some y"
  shows "fst y \<in> {Returns OK, Returns ENABLE_TIMEOUT, Returns SIGNAL_INTERRUPTED}"
  using assms
proof (induction rule: enable_long_loop.raw_induct [rotated 1, consumes 1])
  case (1 loop dev cfg deadline s y)
  from 1(2) show ?case
    by (auto simp: Let_def split: prod.splits if_splits dest!: 1(1))
qed

lemma enableMotors_outcomes:
  assumes "enableMotors dev cfg s = Some (r, s')"
  shows "r \<in> {Returns OK, Returns ENABLE_TIMEOUT, Returns SIGNAL_INTERRUPTED}"
proof -
  obtain ok s1 where ea: "do_enable_arm dev 7 s = (ok, s1)" by force
  obtain res n s2 where fl: "enable_fast_loop dev 0 s1 = (res, n, s2)"
    by (metis surj_pair)
  from assms ea fl enable_fast_loop_outcomes [OF fl] show ?thesis
    by (auto simp: enableMotors_def split: if_splits dest!: enable_long_loop_outcomes)
qed

lemma homing_poll_outcomes:
  "homing_poll cfg st = Return r \<Longrightarrow>
     r \<in> {Returns OK, Returns ARM_ERROR, Undefined SignedOverflow}"
  by (auto simp: homing_poll_def split: option.splits if_splits)

lemma waitHomingDone_loop_outcomes:
  assumes "waitHomingDone_loop dev cfg deadline s = Some y"
  shows "fst y \<in> {Returns OK, Returns ARM_ERROR, Returns SIGNAL_INTERRUPTED,
                   Returns HOME_TIMEOUT, Undefined SignedOverflow}"
  using assms
proof (induction rule: waitHomingDone_loop.raw_induct [rotated 1, consumes 1])
  case (1 loop dev cfg deadline s y)
  from 1(2) show ?case
    by (auto simp: Let_def split: prod.splits if_splits poll.splits
        dest!: 1(1) homing_poll_outcomes)
qed

lemma waitHomingDone_outcomes:
  "waitHomingDone dev cfg s = Some (r, s') \<Longrightarrow>
     r \<in> {Returns OK, Returns ARM_ERROR, Returns SIGNAL_INTERRUPTED,
          Returns HOME_TIMEOUT, Undefined SignedOverflow}"
  by (auto simp: waitHomingDone_def dest!: waitHomingDone_loop_outcomes)

lemma performHoming_body_cases:
  assumes "(if retry < home_retry_count cfg then
        let (flag, s1) = read_shutdown dev s in
        if flag then Some (Returns SIGNAL_INTERRUPTED, s1)
        else
          let s2 = (if retry > 0 then do_sleep dev 1000 s1 else s1);
              (mode_ok, s3) =
                 do_motion_control_2 dev [1, 1, motion_speed_percent cfg, 0, 0, 0] s2
          in
          if \<not> mode_ok then loop dev cfg (retry + 1) s3
          else
            let s4 = do_sleep dev 100 s3;
                (move_ok, s5) = do_move_joint dev (target_joints cfg) s4
            in
            if \<not> move_ok then loop dev cfg (retry + 1) s5
            else
              do {
                (wait_result, s6) \<leftarrow> waitHomingDone dev cfg s5;
                case wait_result of
                  Undefined f \<Rightarrow> Some (Undefined f, s6)
                | Returns err \<Rightarrow>
                    if err = OK then Some (Returns OK, s6)
                    else if err = SIGNAL_INTERRUPTED then Some (Returns err, s6)
                    else loop dev cfg (retry + 1) s6
              }
      else Some (Returns HOME_FAILED, s)) = Some y"
  obtains
    (exhausted) "\<not> retry < home_retry_count cfg" "y = (Returns HOME_FAILED, s)"
  | (cancelled) s1 where "retry < home_retry_count cfg" "read_shutdown dev s = (True, s1)"
      "y = (Returns SIGNAL_INTERRUPTED, s1)"
  | (mode_failed) s1 s3 where "retry < home_retry_count cfg"
      "read_shutdown dev s = (False, s1)"
      "do_motion_control_2 dev [1, 1, motion_speed_percent cfg, 0, 0, 0]
         (if retry > 0 then do_sleep dev 1000 s1 else s1) = (False, s3)"
      "loop dev cfg (retry + 1) s3 = Some y"
  | (move_failed) s1 s3 s5 where "retry < home_retry_count cfg"
      "read_shutdown dev s = (False, s1)"
      "do_motion_control_2 dev [1, 1, motion_speed_percent cfg, 0, 0, 0]
         (if retry > 0 then do_sleep dev 1000 s1 else s1) = (True, s3)"
      "do_move_joint dev (target_joints cfg) (do_sleep dev 100 s3) = (False, s5)"
      "loop dev cfg (retry + 1) s5 = Some y"
  | (wait_final) s1 s3 s5 wr s6 where "retry < home_retry_count cfg"
      "read_shutdown dev s = (False, s1)"
      "do_motion_control_2 dev [1, 1, motion_speed_percent cfg, 0, 0, 0]
         (if retry > 0 then do_sleep dev 1000 s1 else s1) = (True, s3)"
      "do_move_joint dev (target_joints cfg) (do_sleep dev 100 s3) = (True, s5)"
      "waitHomingDone dev cfg s5 = Some (wr, s6)"
      "wr = Returns OK \<or> wr = Returns SIGNAL_INTERRUPTED \<or> (\<exists>f. wr = Undefined f)"
      "y = (wr, s6)"
  | (wait_retry) s1 s3 s5 err s6 where "retry < home_retry_count cfg"
      "read_shutdown dev s = (False, s1)"
      "do_motion_control_2 dev [1, 1, motion_speed_percent cfg, 0, 0, 0]
         (if retry > 0 then do_sleep dev 1000 s1 else s1) = (True, s3)"
      "do_move_joint dev (target_joints cfg) (do_sleep dev 100 s3) = (True, s5)"
      "waitHomingDone dev cfg s5 = Some (Returns err, s6)"
      "err \<noteq> OK" "err \<noteq> SIGNAL_INTERRUPTED"
      "loop dev cfg (retry + 1) s6 = Some y"
proof (cases "retry < home_retry_count cfg")
  case False
  with assms exhausted show thesis by simp
next
  case True
  obtain flag s1 where rs: "read_shutdown dev s = (flag, s1)" by force
  define s2 where "s2 = (if 0 < retry then do_sleep dev 1000 s1 else s1)"
  obtain mode_ok s3 where mc:
    "do_motion_control_2 dev [1, 1, motion_speed_percent cfg, 0, 0, 0] s2 = (mode_ok, s3)"
    by force
  obtain move_ok s5 where mj:
    "do_move_joint dev (target_joints cfg) (do_sleep dev 100 s3) = (move_ok, s5)"
    by force
  show thesis
  proof (cases flag)
    case True
    with assms \<open>retry < home_retry_count cfg\<close> rs show thesis
      by (intro cancelled [of s1]) auto
  next
    case flag: False
    show thesis
    proof (cases mode_ok)
      case False
      with assms \<open>retry < home_retry_count cfg\<close> rs flag mc show thesis
        by (intro mode_failed [of s1 s3]) (auto simp: Let_def s2_def)
    next
      case mode: True
      show thesis
      proof (cases move_ok)
        case False
        with assms \<open>retry < home_retry_count cfg\<close> rs flag mc mode mj show thesis
          by (intro move_failed [of s1 s3 s5]) (auto simp: Let_def s2_def)
      next
        case move: True
        have eq: "(waitHomingDone dev cfg s5 \<bind>
            (\<lambda>(wait_result, s6).
               case wait_result of
                 Returns err \<Rightarrow>
                   if err = OK then Some (Returns OK, s6)
                   else if err = SIGNAL_INTERRUPTED then Some (Returns err, s6)
                   else loop dev cfg (retry + 1) s6
               | Undefined f \<Rightarrow> Some (Undefined f, s6))) = Some y"
          using assms \<open>retry < home_retry_count cfg\<close> rs flag mc mj mode move
          by (simp add: Let_def s2_def)
        then obtain wr s6 where w: "waitHomingDone dev cfg s5 = Some (wr, s6)"
          by (auto simp: bind_eq_Some_conv)
        show thesis
        proof (cases "wr = Returns OK \<or> wr = Returns SIGNAL_INTERRUPTED \<or> (\<exists>f. wr = Undefined f)")
          case True
          then have "y = (wr, s6)" using eq w by auto
          with True \<open>retry < home_retry_count cfg\<close> rs flag mc mode mj move w show thesis
            by (intro wait_final [of s1 s3 s5 wr s6]) (auto simp: s2_def)
        next
          case False
          then obtain err where err: "wr = Returns err" "err \<noteq> OK" "err \<noteq> SIGNAL_INTERRUPTED"
            by (cases wr) auto
          then have "loop dev cfg (retry + 1) s6 = Some y"
            using eq w by auto
          with err \<open>retry < home_retry_count cfg\<close> rs flag mc mode mj move w show thesis
            by (intro wait_retry [of s1 s3 s5 err s6]) (auto simp: s2_def)
        qed
      qed
    qed
  qed
qed

lemma performHoming_loop_outcomes:
  assumes "performHoming_loop dev cfg retry s = Some y"
  shows "fst y \<in> {Returns OK, Returns SIGNAL_INTERRUPTED, Returns HOME_FAILED,
                   Undefined SignedOverflow}"
  using assms
proof (induction rule: performHoming_loop.raw_induct [rotated 1, consumes 1])
  case (1 loop dev cfg retry s y)
  from 1(2) show ?case
  proof (cases rule: performHoming_body_cases)
    case (wait_final s1 s3 s5 wr s6)
    with waitHomingDone_outcomes [of dev cfg s5 wr s6] show ?thesis by auto
  qed (auto dest!: 1(1))
qed

lemma performHoming_outcomes:
  "performHoming dev cfg s = Some (r, s') \<Longrightarrow>
     r \<in> {Returns OK, Returns SIGNAL_INTERRUPTED, Returns HOME_FAILED,
          Undefined SignedOverflow}"
  by (auto simp: performHoming_def dest!: performHoming_loop_outcomes)

lemma createInterface_outcomes:
  "fst (createInterface dev cfg s) \<in> {Returns OK, Returns CAN_OPEN_FAILED}"
  by (auto simp: createInterface_def split: prod.splits)

lemma connectPort_outcomes:
  "fst (connectPort dev s) \<in> {Returns OK, Returns CONNECT_FAILED}"
  by (auto simp: connectPort_def split: prod.splits)

lemma run_outcomes:
  assumes "run dev cfg s = Some (r, s')"
  shows "r \<in> {Returns OK, Returns CAN_OPEN_FAILED, Returns CONNECT_FAILED,
              Returns ENABLE_TIMEOUT, Returns HOME_FAILED, Returns SIGNAL_INTERRUPTED,
              Returns ARM_ERROR, Undefined EmptyOptionalAccess, Undefined SignedOverflow}"
  using assms
proof (cases rule: run_cases)
  case create
  with createInterface_outcomes [of dev cfg s] show ?thesis by auto
next
  case (connect s1)
  with connectPort_outcomes [of dev s1] show ?thesis by auto
next
  case (link s1 s2)
  then show ?thesis
    by (auto simp: waitForConnection_def dest!: waitForConnection_loop_outcomes)
next
  case (status s1 s2 s3)
  with checkArmStatus_outcomes [of dev s3] show ?thesis by auto
next
  case (enable s1 s2 s3 s4)
  then show ?thesis by (auto dest!: enableMotors_outcomes)
next
  case (home s1 s2 s3 s4 s5)
  then show ?thesis by (auto dest!: performHoming_outcomes)
qed

section \<open>Every step returns when the clock is monotonic\<close>

lemma now_read_shutdown: "read_shutdown dev s = (flag, s1) \<Longrightarrow> now dev s1 = now dev s"
  by (auto dest!: read_shutdownD simp: now_def)

lemma now_do_sleep: "monotonic_clock dev \<Longrightarrow> now dev s + d \<le> now dev (do_sleep dev d s)"
  by (simp add: monotonic_clock_def do_sleep_def now_def)

lemma now_do_get_connect_status:
  assumes "monotonic_clock dev" and "do_get_connect_status dev s = (r, s1)"
  shows "now dev s \<le> now dev s1"
proof -
  have "steady_clock_now dev (world s)
          \<le> steady_clock_now dev (snd (get_connect_status dev (world s)))"
    using assms(1) by (simp add: monotonic_clock_def)
  with assms(2) show ?thesis
    by (cases r) (auto simp: now_def dest!: do_get_connect_statusD)
qed

lemma now_do_enable_piper:
  assumes "monotonic_clock dev" and "do_enable_piper dev s = (r, s1)"
  shows "now dev s \<le> now dev s1"
proof -
  have "steady_clock_now dev (world s)
          \<le> steady_clock_now dev (snd (enable_piper dev (world s)))"
    using assms(1) by (simp add: monotonic_clock_def)
  with assms(2) show ?thesis
    by (auto simp: now_def dest!: do_enable_piperD)
qed

lemma now_do_get_arm_status:
  assumes "monotonic_clock dev" and "do_get_arm_status dev s = (r, s1)"
  shows "now dev s \<le> now dev s1"
proof -
  have "steady_clock_now dev (world s)
          \<le> steady_clock_now dev (snd (get_arm_status dev (world s)))"
    using assms(1) by (simp add: monotonic_clock_def)
  with assms(2) show ?thesis
    by (auto simp: now_def dest!: do_get_arm_statusD)
qed

lemma waitForConnection_loop_returns:
  assumes "monotonic_clock dev" and "0 < status_poll_interval cfg"
  shows "\<exists>y. waitForConnection_loop dev cfg deadline s = Some y"
proof (induction "nat (deadline - now dev s)" arbitrary: s rule: less_induct)
  case less
  show ?case
  proof (cases "now dev s < deadline")
    case False
    then show ?thesis by (subst waitForConnection_loop.simps) simp
  next
    case True
    obtain flag s1 where rs: "read_shutdown dev s = (flag, s1)" by force
    obtain c s2 where gc: "do_get_connect_status dev s1 = (c, s2)" by (metis surj_pair)
    let ?s3 = "do_sleep dev (status_poll_interval cfg) s2"
    have "now dev s < now dev ?s3"
      using now_read_shutdown [OF rs] now_do_get_connect_status [OF assms(1) gc]
        now_do_sleep [OF assms(1), of s2 "status_poll_interval cfg"] assms(2)
      by simp
    with True have "nat (deadline - now dev ?s3) < nat (deadline - now dev s)" by simp
    from less [OF this] obtain y where "waitForConnection_loop dev cfg deadline ?s3 = Some y" ..
    with True rs gc show ?thesis
      by (subst waitForConnection_loop.simps) (auto simp: Let_def split: prod.splits)
  qed
qed

lemma enable_long_loop_returns:
  assumes "monotonic_clock dev" and "0 < status_poll_interval cfg"
  shows "\<exists>y. enable_long_loop dev cfg deadline s = Some y"
proof (induction "nat (deadline - now dev s)" arbitrary: s rule: less_induct)
  case less
  show ?case
  proof (cases "now dev s < deadline")
    case False
    then show ?thesis by (subst enable_long_loop.simps) simp
  next
    case True
    obtain flag s1 where rs: "read_shutdown dev s = (flag, s1)" by force
    obtain en s2 where ep: "do_enable_piper dev s1 = (en, s2)" by force
    let ?s3 = "do_sleep dev (status_poll_interval cfg) s2"
    have "now dev s < now dev ?s3"
      using now_read_shutdown [OF rs] now_do_enable_piper [OF assms(1) ep]
        now_do_sleep [OF assms(1), of s2 "status_poll_interval cfg"] assms(2)
      by simp
    with True have "nat (deadline - now dev ?s3) < nat (deadline - now dev s)" by simp
    from less [OF this] obtain y where "enable_long_loop dev cfg deadline ?s3 = Some y" ..
    with True rs ep show ?thesis
      by (subst enable_long_loop.simps) (auto simp: Let_def split: prod.splits)
  qed
qed

lemma waitHomingDone_loop_returns:
  assumes "monotonic_clock dev" and "0 < status_poll_interval cfg"
  shows "\<exists>y. waitHomingDone_loop dev cfg deadline s = Some y"
proof (induction "nat (deadline - now dev s)" arbitrary: s rule: less_induct)
  case less
  show ?case
  proof (cases "now dev s < deadline")
    case False
    then show ?thesis by (subst waitHomingDone_loop.simps) simp
  next
    case True
    obtain flag s1 where rs: "read_shutdown dev s = (flag, s1)" by force
    obtain st s2 where ga: "do_get_arm_status dev s1 = (st, s2)" by force
    let ?s3 = "do_sleep dev (status_poll_interval cfg) s2"
    have "now dev s < now dev ?s3"
      using now_read_shutdown [OF rs] now_do_get_arm_status [OF assms(1) ga]
        now_do_sleep [OF assms(1), of s2 "status_poll_interval cfg"] assms(2)
      by simp
    with True have "nat (deadline - now dev ?s3) < nat (deadline - now dev s)" by simp
    from less [OF this] obtain y where "waitHomingDone_loop dev cfg deadline ?s3 = Some y" ..
    with True rs ga show ?thesis
      by (subst waitHomingDone_loop.simps) (auto simp: Let_def split: prod.splits poll.splits)
  qed
qed

lemma waitHomingDone_returns:
  "monotonic_clock dev \<Longrightarrow> 0 < status_poll_interval cfg
     \<Longrightarrow> \<exists>r s'. waitHomingDone dev cfg s = Some (r, s')"
  using waitHomingDone_loop_returns [of dev cfg "now dev s + home_timeout cfg" s]
  by (auto simp: waitHomingDone_def)

lemma performHoming_loop_returns:
  assumes "monotonic_clock dev" and "0 < status_poll_interval cfg"
  shows "\<exists>y. performHoming_loop dev cfg retry s = Some y"
proof (induction "nat (home_retry_count cfg - retry)" arbitrary: retry s rule: less_induct)
  case less
  show ?case
  proof (cases "retry < home_retry_count cfg")
    case False
    then show ?thesis by (subst performHoming_loop.simps) simp
  next
    case True
    then have "nat (home_retry_count cfg - (retry + 1)) < nat (home_retry_count cfg - retry)"
      by simp
    note ih = less [OF this]
    obtain flag s1 where rs: "read_shutdown dev s = (flag, s1)" by force
    define s2 where "s2 = (if 0 < retry then do_sleep dev 1000 s1 else s1)"
    obtain mode_ok s3 where mc:
      "do_motion_control_2 dev [1, 1, motion_speed_percent cfg, 0, 0, 0] s2 = (mode_ok, s3)"
      by force
    obtain move_ok s5 where mj:
      "do_move_joint dev (target_joints cfg) (do_sleep dev 100 s3) = (move_ok, s5)"
      by force
    obtain wr s6 where w: "waitHomingDone dev cfg s5 = Some (wr, s6)"
      using waitHomingDone_returns [OF assms] by blast
    from ih [of s3] ih [of s5] ih [of s6] True rs mc mj w show ?thesis
      by (subst performHoming_loop.simps)
        (auto simp: Let_def s2_def [symmetric] split: outcome.splits)
  qed
qed

lemma enableMotors_returns:
  assumes "monotonic_clock dev" and "0 < status_poll_interval cfg"
  shows "\<exists>r s'. enableMotors dev cfg s = Some (r, s')"
proof -
  obtain ok s1 where ea: "do_enable_arm dev 7 s = (ok, s1)" by force
  obtain res n s2 where fl: "enable_fast_loop dev 0 s1 = (res, n, s2)"
    by (metis surj_pair)
  from enable_long_loop_returns [OF assms, of "now dev s2 + enable_timeout cfg" s2] ea fl
  show ?thesis
    by (cases res) (auto simp: enableMotors_def)
qed

lemma run_returns:
  assumes "monotonic_clock dev" and "0 < status_poll_interval cfg"
  shows "\<exists>r s'. run dev cfg s = Some (r, s')"
proof -
  obtain r1 s1 where c1: "createInterface dev cfg s = (r1, s1)" by force
  obtain r2 s2 where c2: "connectPort dev s1 = (r2, s2)" by force
  obtain r3 s3 where c3: "waitForConnection dev cfg s2 = Some (r3, s3)"
    using waitForConnection_loop_returns [OF assms] by (fastforce simp: waitForConnection_def)
  obtain r4 s4 where c4: "checkArmStatus dev s3 = (r4, s4)" by force
  obtain r5 s5 where c5: "enableMotors dev cfg s4 = Some (r5, s5)"
    using enableMotors_returns [OF assms] by blast
  obtain y where c6: "performHoming dev cfg s5 = Some y"
    using performHoming_loop_returns [OF assms] by (fastforce simp: performHoming_def)
  from c1 c2 c3 c4 c5 c6 show ?thesis
    by (cases y) (auto simp: run_def)
qed

section \<open>Runs in which a wait is never satisfied\<close>

lemma emits_traceD:
  "emits k dev s s' \<Longrightarrow>
     \<exists>evs. trace s' = trace s @ evs \<and> list_all (\<lambda>e. earliest_step e \<le> k) evs"
  by (auto simp: emits_def list_all_iff)

lemma waitForConnection_loop_never_linked:
  assumes "waitForConnection_loop dev cfg deadline s = Some y"
  shows "\<exists>evs. trace (snd y) = trace s @ evs
           \<and> (GetConnectStatus True False \<notin> set evs \<and> ShutdownRead True \<notin> set evs
                \<longrightarrow> fst y = Returns CONNECT_FAILED \<and> deadline \<le> now dev (snd y))"
  using assms
proof (induction rule: waitForConnection_loop.raw_induct [rotated 1, consumes 1])
  case (1 loop dev cfg deadline s y)
  from 1(2) show ?case
    by (auto simp: Let_def do_defs emit_def split: prod.splits if_splits dest!: 1(1))
qed

lemma enable_long_loop_never_confirmed:
  assumes "enable_long_loop dev cfg deadline s = Some y"
  shows "\<exists>evs. trace (snd y) = trace s @ evs
           \<and> (EnablePiper True \<notin> set evs \<and> ShutdownRead True \<notin> set evs
                \<longrightarrow> fst y = Returns ENABLE_TIMEOUT \<and> deadline \<le> now dev (snd y)
                  \<and> set evs \<subseteq> {ShutdownRead False, EnablePiper False,
                                 SleepFor (status_poll_interval cfg)})"
  using assms
proof (induction rule: enable_long_loop.raw_induct [rotated 1, consumes 1])
  case (1 loop dev cfg deadline s y)
  from 1(2) show ?case
    by (auto simp: Let_def do_defs emit_def split: prod.splits if_splits dest!: 1(1))
qed

lemma waitHomingDone_loop_no_convergence:
  assumes "waitHomingDone_loop dev cfg deadline s = Some y"
  shows "\<exists>evs. trace (snd y) = trace s @ evs
           \<and> (list_all (no_convergence cfg) evs \<longrightarrow> fst y = Returns HOME_TIMEOUT)"
  using assms
proof (induction rule: waitHomingDone_loop.raw_induct [rotated 1, consumes 1])
  case (1 loop dev cfg deadline s y)
  from 1(2) show ?case
    by (auto simp: Let_def do_defs emit_def split: prod.splits if_splits poll.splits
        dest!: 1(1))
qed

lemma enable_fast_loop_never_confirmed:
  "enable_fast_loop dev retry_count s = (res, n, s') \<Longrightarrow> retry_count \<le> MAX_RETRIES \<Longrightarrow>
     \<exists>evs. trace s' = trace s @ evs
       \<and> (EnablePiper True \<notin> set evs \<and> ShutdownRead True \<notin> set evs \<longrightarrow>
            res = None \<and> n = MAX_RETRIES
            \<and> count_list evs (EnablePiper False) = nat (MAX_RETRIES - retry_count) + 1
            \<and> count_list evs (SleepFor 10) = nat (MAX_RETRIES - retry_count))"
proof (induction dev retry_count s arbitrary: res n s' rule: enable_fast_loop.induct)
  case (1 dev retry_count s)
  obtain en s1 where ep: "do_enable_piper dev s = (en, s1)" by force
  obtain flag s2 where rs: "read_shutdown dev s1 = (flag, s2)" by force
  show ?case
  proof (cases "\<not> en \<and> retry_count < MAX_RETRIES \<and> \<not> flag")
    case True
    then have rec: "enable_fast_loop dev (retry_count + 1) (do_sleep dev 10 s2) = (res, n, s')"
      using 1(2) ep rs by (subst (asm) enable_fast_loop.simps) simp
    from True have le: "retry_count + 1 \<le> MAX_RETRIES" by simp
    from 1(1) [OF ep [symmetric] refl _ rs [symmetric] refl _ rec le] True
    obtain evs where evs: "trace s' = trace (do_sleep dev 10 s2) @ evs"
      "EnablePiper True \<notin> set evs \<and> ShutdownRead True \<notin> set evs \<longrightarrow>
            res = None \<and> n = MAX_RETRIES
            \<and> count_list evs (EnablePiper False) = nat (MAX_RETRIES - (retry_count + 1)) + 1
            \<and> count_list evs (SleepFor 10) = nat (MAX_RETRIES - (retry_count + 1))"
      by auto
    have tr: "trace (do_sleep dev 10 s2) =
        trace s @ [EnablePiper False, ShutdownRead False, SleepFor 10]"
      using ep rs True by (auto simp: do_sleep_def dest!: do_enable_piperD read_shutdownD)
    have arith: "Suc (nat (MAX_RETRIES - (retry_count + 1))) = nat (MAX_RETRIES - retry_count)"
      using True by linarith
    show ?thesis
      by (rule exI [of _ "[EnablePiper False, ShutdownRead False, SleepFor 10] @ evs"])
        (use evs tr arith in auto)
  next
    case False
    then show ?thesis
      using 1(2,3) ep rs
      by (subst (asm) enable_fast_loop.simps)
        (auto split: if_splits dest!: do_enable_piperD read_shutdownD)
  qed
qed

text \<open>
  C5. Under a monotonic clock and a positive poll interval \<open>enableMotors\<close> returns. In
  a run of it where no poll of \<open>enable_piper\<close> answers true and no read of the flag
  finds it set: the first loop falls through with \<open>retry_count = 200\<close> after 201 polls
  and 200 sleeps of 10 ms, the second loop is entered with the deadline
  \<open>now + enable_timeout\<close>, polls at \<open>status_poll_interval\<close> spacing, ends at or after
  its deadline, and the step returns \<open>ENABLE_TIMEOUT\<close>.
\<close>

theorem enable_timeout_after_both_loops:
  assumes "monotonic_clock dev" and "0 < status_poll_interval cfg"
  shows "\<exists>r s'. enableMotors dev cfg s = Some (r, s')
     \<and> (EnablePiper True \<notin> set (new_events s s')
          \<and> ShutdownRead True \<notin> set (new_events s s') \<longrightarrow>
        r = Returns ENABLE_TIMEOUT
        \<and> (\<exists>s2. enable_fast_loop dev 0 (snd (do_enable_arm dev 7 s)) = (None, MAX_RETRIES, s2)
              \<and> count_list (new_events (snd (do_enable_arm dev 7 s)) s2) (EnablePiper False) = 201
              \<and> count_list (new_events (snd (do_enable_arm dev 7 s)) s2) (SleepFor 10) = 200
              \<and> enable_long_loop dev cfg (now dev s2 + enable_timeout cfg) s2 = Some (r, s')
              \<and> now dev s2 + enable_timeout cfg \<le> now dev s'
              \<and> set (new_events s2 s')
                   \<subseteq> {ShutdownRead False, EnablePiper False,
                       SleepFor (status_poll_interval cfg)}))"
proof -
  obtain ok s1 where ea: "do_enable_arm dev 7 s = (ok, s1)" by force
  obtain res n s2 where fl: "enable_fast_loop dev 0 s1 = (res, n, s2)"
    by (metis surj_pair)
  obtain r s' where em: "enableMotors dev cfg s = Some (r, s')"
    using enableMotors_returns [OF assms] by blast
  have tr1: "trace s1 = trace s @ [EnableArm 7 ok]"
    using ea by (auto dest!: do_enable_armD)
  from enable_fast_loop_never_confirmed [OF fl] obtain evs1 where evs1:
    "trace s2 = trace s1 @ evs1"
    "EnablePiper True \<notin> set evs1 \<and> ShutdownRead True \<notin> set evs1 \<longrightarrow>
       res = None \<and> n = MAX_RETRIES
       \<and> count_list evs1 (EnablePiper False) = nat (MAX_RETRIES - 0) + 1
       \<and> count_list evs1 (SleepFor 10) = nat (MAX_RETRIES - 0)"
    by (auto simp: MAX_RETRIES_def)
  have "EnablePiper True \<notin> set (new_events s s') \<and> ShutdownRead True \<notin> set (new_events s s')
     \<longrightarrow> r = Returns ENABLE_TIMEOUT
        \<and> (\<exists>s2. enable_fast_loop dev 0 (snd (do_enable_arm dev 7 s)) = (None, MAX_RETRIES, s2)
              \<and> count_list (new_events (snd (do_enable_arm dev 7 s)) s2) (EnablePiper False) = 201
              \<and> count_list (new_events (snd (do_enable_arm dev 7 s)) s2) (SleepFor 10) = 200
              \<and> enable_long_loop dev cfg (now dev s2 + enable_timeout cfg) s2 = Some (r, s')
              \<and> now dev s2 + enable_timeout cfg \<le> now dev s'
              \<and> set (new_events s2 s')
                   \<subseteq> {ShutdownRead False, EnablePiper False,
                       SleepFor (status_poll_interval cfg)})"
  proof (intro impI, elim conjE)
    assume no_en: "EnablePiper True \<notin> set (new_events s s')"
      and no_flag: "ShutdownRead True \<notin> set (new_events s s')"
    from enableMotors_emits [OF em] fl ea
    have pre: "\<exists>evs. trace s' = trace s2 @ evs"
      using em enable_fast_loop_outcomes [OF fl]
      by (auto simp: enableMotors_def split: if_splits
          dest!: enable_long_loop_emits emits_traceD)
    then obtain evs2 where evs2: "trace s' = trace s2 @ evs2" ..
    have ne: "new_events s s' = EnableArm 7 ok # evs1 @ evs2"
      using tr1 evs1(1) evs2 by (simp add: new_events_def)
    with no_en no_flag evs1(2) have fast: "res = None" "n = MAX_RETRIES"
      "count_list evs1 (EnablePiper False) = 201" "count_list evs1 (SleepFor 10) = 200"
      by (auto simp: MAX_RETRIES_def)
    with em ea fl have long:
      "enable_long_loop dev cfg (now dev s2 + enable_timeout cfg) s2 = Some (r, s')"
      by (simp add: enableMotors_def)
    from enable_long_loop_never_confirmed [OF long] evs2 ne no_en no_flag
    have res: "r = Returns ENABLE_TIMEOUT" "now dev s2 + enable_timeout cfg \<le> now dev s'"
      "set evs2 \<subseteq> {ShutdownRead False, EnablePiper False, SleepFor (status_poll_interval cfg)}"
      by auto
    have ne1: "new_events s1 s2 = evs1" "new_events s2 s' = evs2"
      using evs1(1) evs2 by (simp_all add: new_events_def)
    show "r = Returns ENABLE_TIMEOUT
        \<and> (\<exists>s2. enable_fast_loop dev 0 (snd (do_enable_arm dev 7 s)) = (None, MAX_RETRIES, s2)
              \<and> count_list (new_events (snd (do_enable_arm dev 7 s)) s2) (EnablePiper False) = 201
              \<and> count_list (new_events (snd (do_enable_arm dev 7 s)) s2) (SleepFor 10) = 200
              \<and> enable_long_loop dev cfg (now dev s2 + enable_timeout cfg) s2 = Some (r, s')
              \<and> now dev s2 + enable_timeout cfg \<le> now dev s'
              \<and> set (new_events s2 s')
                   \<subseteq> {ShutdownRead False, EnablePiper False,
                       SleepFor (status_poll_interval cfg)})"
      using res fast long fl ea ne1 by (intro conjI exI [of _ s2]) simp_all
  qed
  with em show ?thesis by blast
qed

lemma monotonic_clock_sim: "monotonic_clock (sim_device flag link arm en)"
  by (simp add: monotonic_clock_def)

lemma new_events_answers:
  "emits k dev s s' \<Longrightarrow> \<not> answers dev e \<Longrightarrow> e \<notin> set (new_events s s')"
  by (auto simp: emits_def new_events_def list_all_iff)

theorem enable_timeout_after_both_loops_witness:
  "monotonic_clock never_enabled \<and> 0 < status_poll_interval main_Config
   \<and> (\<exists>s'. enableMotors never_enabled main_Config linked = Some (Returns ENABLE_TIMEOUT, s')
          \<and> EnablePiper True \<notin> set (new_events linked s')
          \<and> ShutdownRead True \<notin> set (new_events linked s'))"
proof -
  have mc: "monotonic_clock never_enabled"
    by (simp add: never_enabled_def monotonic_clock_sim)
  have iv: "0 < status_poll_interval main_Config"
    by (simp add: main_Config_def default_Config_def)
  from enable_timeout_after_both_loops [OF mc iv, of linked]
  obtain r s' where run: "enableMotors never_enabled main_Config linked = Some (r, s')"
    and imp: "EnablePiper True \<notin> set (new_events linked s')
          \<and> ShutdownRead True \<notin> set (new_events linked s') \<longrightarrow> r = Returns ENABLE_TIMEOUT"
    by blast
  have "\<not> answers never_enabled (EnablePiper True)"
    "\<not> answers never_enabled (ShutdownRead True)"
    by (simp_all add: never_enabled_def)
  with new_events_answers [OF enableMotors_emits [OF run]]
  have quiet: "EnablePiper True \<notin> set (new_events linked s')"
    "ShutdownRead True \<notin> set (new_events linked s')"
    by blast+
  with imp run mc iv show ?thesis by blast
qed

section \<open>The homing retry loop\<close>

lemma early_step_not_motion:
  "list_all (\<lambda>e. earliest_step e \<le> 4) evs \<Longrightarrow>
     filter is_mode_set evs = [] \<and> filter is_move evs = []"
proof (induction evs)
  case (Cons e evs)
  then show ?case by (cases e) auto
qed simp

lemma performHoming_loop_attempts:
  assumes "performHoming_loop dev cfg retry s = Some y"
  shows "\<exists>evs. trace (snd y) = trace s @ evs
           \<and> (list_all (no_convergence cfg) evs \<longrightarrow>
                fst y = Returns HOME_FAILED
                \<and> length (filter is_mode_set evs) = nat (home_retry_count cfg - retry)
                \<and> length (filter is_move evs) = nat (home_retry_count cfg - retry))"
  using assms
proof (induction rule: performHoming_loop.raw_induct [rotated 1, consumes 1])
  case (1 loop dev cfg retry s y)
  from 1(2) show ?case
  proof (cases rule: performHoming_body_cases)
    case exhausted
    then show ?thesis by simp
  next
    case (cancelled s1)
    then show ?thesis by (auto dest!: read_shutdownD)
  next
    case (mode_failed s1 s3)
    from 1(1) [OF mode_failed(4)] obtain evs' where "trace (snd y) = trace s3 @ evs'"
      by blast
    with mode_failed(2,3) show ?thesis
      by (auto simp: do_sleep_def dest!: read_shutdownD do_motion_control_2D
          split: if_splits)
  next
    case (move_failed s1 s3 s5)
    from 1(1) [OF move_failed(5)] obtain evs' where "trace (snd y) = trace s5 @ evs'"
      by blast
    with move_failed(2,3,4) show ?thesis
      by (auto simp: do_sleep_def dest!: read_shutdownD do_motion_control_2D do_move_jointD
          split: if_splits)
  next
    case (wait_final s1 s3 s5 wr s6)
    from waitHomingDone_loop_no_convergence [of dev cfg _ s5 "(wr, s6)"] wait_final(5)
    obtain evsw where w: "trace s6 = trace s5 @ evsw"
      "list_all (no_convergence cfg) evsw \<longrightarrow> wr = Returns HOME_TIMEOUT"
      by (auto simp: waitHomingDone_def)
    from wait_final(6) w(2) have "\<not> list_all (no_convergence cfg) evsw" by auto
    with wait_final(2,3,4,7) w(1) show ?thesis
      by (auto simp: do_sleep_def dest!: read_shutdownD do_motion_control_2D do_move_jointD
          split: if_splits)
  next
    case (wait_retry s1 s3 s5 err s6)
    from 1(1) [OF wait_retry(8)] obtain evs' where evs': "trace (snd y) = trace s6 @ evs'"
      "list_all (no_convergence cfg) evs' \<longrightarrow>
         fst y = Returns HOME_FAILED
         \<and> length (filter is_mode_set evs') = nat (home_retry_count cfg - (retry + 1))
         \<and> length (filter is_move evs') = nat (home_retry_count cfg - (retry + 1))"
      by blast
    from emits_traceD [OF waitHomingDone_emits [OF wait_retry(5)]]
    obtain evsw where w: "trace s6 = trace s5 @ evsw"
      "list_all (\<lambda>e. earliest_step e \<le> 4) evsw"
      by blast
    note nm = early_step_not_motion [OF w(2)]
    define pre where "pre = ShutdownRead False # (if 0 < retry then [SleepFor 1000] else [])
        @ [MotionControl2 [1, 1, motion_speed_percent cfg, 0, 0, 0] True, SleepFor 100,
           MoveJoint (target_joints cfg) True]"
    have tr5: "trace s5 = trace s @ pre"
      using wait_retry(2,3,4)
      by (auto simp: pre_def do_sleep_def
          dest!: read_shutdownD do_motion_control_2D do_move_jointD split: if_splits)
    have cnt: "length (filter is_mode_set pre) = 1" "length (filter is_move pre) = 1"
      by (simp_all add: pre_def)
    have arith: "Suc (nat (home_retry_count cfg - (retry + 1))) = nat (home_retry_count cfg - retry)"
      using wait_retry(1) by linarith
    show ?thesis
      by (rule exI [of _ "pre @ evsw @ evs'"]) (use evs' w(1) tr5 nm cnt arith in auto)
  qed
qed

text \<open>
  C1, what the code does. Under a monotonic clock and a positive poll interval
  \<open>performHoming\<close> returns. In a run of it where every command is acknowledged, no
  read of the flag finds it set and every fetched status sends the wait on to its next
  poll (no convergence, no arm error), the outcome is \<open>HOME_FAILED\<close> after exactly
  \<open>home_retry_count\<close> mode-set commands and \<open>home_retry_count\<close> move commands: the
  loop \<open>for (retry = 0; retry < home_retry_count; retry++)\<close> makes
  \<open>home_retry_count\<close> attempts, 2 and not 3 for \<open>home_retry_count = 2\<close>.
\<close>

theorem homing_attempts:
  assumes "monotonic_clock dev" and "0 < status_poll_interval cfg"
  shows "\<exists>r s'. performHoming dev cfg s = Some (r, s')
     \<and> (list_all (no_convergence cfg) (new_events s s') \<longrightarrow>
          r = Returns HOME_FAILED
          \<and> length (filter is_mode_set (new_events s s')) = nat (home_retry_count cfg)
          \<and> length (filter is_move (new_events s s')) = nat (home_retry_count cfg))"
proof -
  obtain y where y: "performHoming_loop dev cfg 0 s = Some y"
    using performHoming_loop_returns [OF assms] by blast
  from performHoming_loop_attempts [OF y] obtain evs where
    evs: "trace (snd y) = trace s @ evs"
      "list_all (no_convergence cfg) evs \<longrightarrow>
         fst y = Returns HOME_FAILED
         \<and> length (filter is_mode_set evs) = nat (home_retry_count cfg - 0)
         \<and> length (filter is_move evs) = nat (home_retry_count cfg - 0)"
    by blast
  then have "new_events s (snd y) = evs" by (simp add: new_events_def)
  with evs(2) y show ?thesis
    by (intro exI [of _ "fst y"] exI [of _ "snd y"]) (simp add: performHoming_def)
qed

lemma never_converging_answers:
  "answers never_converging e \<Longrightarrow> no_convergence main_Config e"
  by (cases e)
    (auto simp: never_converging_def homing_poll_def off_target_status_def main_Config_def
      default_Config_def joint_diff_def kPositionTolerance_def)

theorem homing_attempts_witness:
  "monotonic_clock never_converging \<and> 0 < status_poll_interval main_Config
   \<and> home_retry_count main_Config = 2
   \<and> (\<exists>s'. performHoming never_converging main_Config enabled_state
               = Some (Returns HOME_FAILED, s')
          \<and> list_all (no_convergence main_Config) (new_events enabled_state s')
          \<and> length (filter is_mode_set (new_events enabled_state s')) = 2
          \<and> length (filter is_move (new_events enabled_state s')) = 2)"
proof -
  have mc: "monotonic_clock never_converging"
    by (simp add: never_converging_def monotonic_clock_sim)
  have iv: "0 < status_poll_interval main_Config" "home_retry_count main_Config = 2"
    by (simp_all add: main_Config_def default_Config_def)
  from homing_attempts [OF mc iv(1), of enabled_state]
  obtain r s' where run: "performHoming never_converging main_Config enabled_state = Some (r, s')"
    and imp: "list_all (no_convergence main_Config) (new_events enabled_state s') \<longrightarrow>
          r = Returns HOME_FAILED
          \<and> length (filter is_mode_set (new_events enabled_state s'))
              = nat (home_retry_count main_Config)
          \<and> length (filter is_move (new_events enabled_state s'))
              = nat (home_retry_count main_Config)"
    by blast
  from emits_new_events [OF performHoming_emits [OF run]]
  have "list_all (answers never_converging) (new_events enabled_state s')"
    by (auto simp: list_all_iff)
  then have nc: "list_all (no_convergence main_Config) (new_events enabled_state s')"
    by (auto simp: list_all_iff dest: never_converging_answers)
  with imp run mc iv show ?thesis by auto
qed

lemma performHoming_loop_retry:
  assumes "retry < home_retry_count cfg" and "read_shutdown dev s = (False, s1)"
    and "do_motion_control_2 dev [1, 1, motion_speed_percent cfg, 0, 0, 0]
           (if 0 < retry then do_sleep dev 1000 s1 else s1) = (True, s3)"
    and "do_move_joint dev (target_joints cfg) (do_sleep dev 100 s3) = (True, s5)"
    and "waitHomingDone dev cfg s5 = Some (Returns err, s6)"
    and "err \<noteq> OK" and "err \<noteq> SIGNAL_INTERRUPTED"
  shows "performHoming_loop dev cfg retry s = performHoming_loop dev cfg (retry + 1) s6"
  using assms by (subst performHoming_loop.simps) (simp add: Let_def)

lemma waitHomingDone_loop_arm_error:
  assumes "now dev s < deadline" and "read_shutdown dev s = (False, s1)"
    and "do_get_arm_status dev s1 = (Some st, s2)" and "error_code st \<noteq> 0"
  shows "waitHomingDone_loop dev cfg deadline s = Some (Returns ARM_ERROR, s2)"
  using assms by (subst waitHomingDone_loop.simps) (simp add: homing_poll_def)

text \<open>
  C2, what the code does. A poll of the convergence wait that fetches a status with
  \<open>error_code \<noteq> 0\<close> makes the wait return \<open>ARM_ERROR\<close> at once; but
  \<open>performHoming\<close> returns the wait's result only when it is \<open>OK\<close> or
  \<open>SIGNAL_INTERRUPTED\<close> (lines 379-386), so the attempt that got \<open>ARM_ERROR\<close> is
  followed by the next one, and \<open>ARM_ERROR\<close> is never the outcome of the homing step.
\<close>

theorem homing_arm_error_retried:
  "(now dev s < deadline \<and> read_shutdown dev s = (False, s1)
      \<and> do_get_arm_status dev s1 = (Some st, s2) \<and> error_code st \<noteq> 0 \<longrightarrow>
      waitHomingDone_loop dev cfg deadline s = Some (Returns ARM_ERROR, s2))
 \<and> (retry < home_retry_count cfg \<and> read_shutdown dev s = (False, s1)
      \<and> do_motion_control_2 dev [1, 1, motion_speed_percent cfg, 0, 0, 0]
           (if 0 < retry then do_sleep dev 1000 s1 else s1) = (True, s3)
      \<and> do_move_joint dev (target_joints cfg) (do_sleep dev 100 s3) = (True, s5)
      \<and> waitHomingDone dev cfg s5 = Some (Returns ARM_ERROR, s6) \<longrightarrow>
      performHoming_loop dev cfg retry s = performHoming_loop dev cfg (retry + 1) s6)
 \<and> (performHoming dev cfg s = Some (r, s') \<longrightarrow> r \<noteq> Returns ARM_ERROR)"
  by (auto intro: waitHomingDone_loop_arm_error performHoming_loop_retry
      dest: performHoming_outcomes)

lemma sim_eval:
  "read_shutdown (sim_device flag link arm en) s = (flag (world s), emit (ShutdownRead (flag (world s))) (world s) s)"
  "do_sleep (sim_device flag link arm en) d s = emit (SleepFor d) (world s + max d 0) s"
  "do_get_arm_status (sim_device flag link arm en) s =
     (arm (world s), emit (GetArmStatus (arm (world s))) (world s) s)"
  "do_enable_piper (sim_device flag link arm en) s =
     (en (world s), emit (EnablePiper (en (world s))) (world s) s)"
  "do_enable_arm (sim_device flag link arm en) n s = (True, emit (EnableArm n True) (world s) s)"
  "do_motion_control_2 (sim_device flag link arm en) args s =
     (True, emit (MotionControl2 args True) (world s) s)"
  "do_move_joint (sim_device flag link arm en) joints s =
     (True, emit (MoveJoint joints True) (world s) s)"
  "do_reset_arm (sim_device flag link arm en) s = emit ResetArm (world s) s"
  "now (sim_device flag link arm en) s = world s"
  by (simp_all add: do_defs now_def Let_def)

lemma error_during_homing_run:
  "waitHomingDone error_during_homing main_Config move_sent
     = Some (Returns ARM_ERROR, arm_error_seen)"
  "performHoming_loop error_during_homing main_Config 1 arm_error_seen =
     Some (Returns HOME_FAILED,
       \<lparr> world = 1500,
         trace = trace arm_error_seen @
           [ShutdownRead False, SleepFor 1000, MotionControl2 [1, 1, 30, 0, 0, 0] True,
            SleepFor 100, MoveJoint [- 90000, 0, 0, 0, 0, 0] True,
            ShutdownRead False, GetArmStatus (Some error_status)] \<rparr>)"
  by (simp_all add: error_during_homing_def waitHomingDone_def waitHomingDone_loop.simps
      performHoming_loop.simps sim_eval homing_poll_def error_status_def
      main_Config_def default_Config_def move_sent_def arm_error_seen_def enabled_state_def
      linked_def emit_def)

theorem homing_arm_error_retried_witness:
  "waitHomingDone error_during_homing main_Config move_sent
     = Some (Returns ARM_ERROR, arm_error_seen)
   \<and> performHoming error_during_homing main_Config enabled_state =
     Some (Returns HOME_FAILED,
       \<lparr> world = 1500,
         trace = trace arm_error_seen @
           [ShutdownRead False, SleepFor 1000, MotionControl2 [1, 1, 30, 0, 0, 0] True,
            SleepFor 100, MoveJoint [- 90000, 0, 0, 0, 0, 0] True,
            ShutdownRead False, GetArmStatus (Some error_status)] \<rparr>)"
proof -
  let ?dev = error_during_homing
  let ?s1 = "emit (ShutdownRead False) 300 enabled_state"
  let ?s3 = "emit (MotionControl2 [1, 1, 30, 0, 0, 0] True) 300 ?s1"
  have h: "(0::int) < home_retry_count main_Config"
    "read_shutdown ?dev enabled_state = (False, ?s1)"
    "do_motion_control_2 ?dev [1, 1, motion_speed_percent main_Config, 0, 0, 0]
       (if (0::int) < 0 then do_sleep ?dev 1000 ?s1 else ?s1) = (True, ?s3)"
    "do_move_joint ?dev (target_joints main_Config) (do_sleep ?dev 100 ?s3) = (True, move_sent)"
    by (simp_all add: error_during_homing_def sim_eval main_Config_def default_Config_def
        enabled_state_def move_sent_def linked_def emit_def)
  from homing_arm_error_retried
    [of ?dev enabled_state 0 ?s1 error_status ?s1 main_Config 0 ?s3 move_sent arm_error_seen]
    h error_during_homing_run(1)
  have "performHoming_loop ?dev main_Config 0 enabled_state
          = performHoming_loop ?dev main_Config (0 + 1) arm_error_seen"
    by blast
  with error_during_homing_run show ?thesis
    by (simp add: performHoming_def)
qed

text \<open>
  C9. A run never returns \<open>ENABLE_FAILED\<close>, \<open>HOME_TIMEOUT\<close> or
  \<open>STATUS_CHECK_FAILED\<close>, so the process never exits with their codes 3, 6 and 8,
  which the enumeration defines. The acknowledgment of the enable command does not
  enter the outcome of \<open>enableMotors\<close>, which is \<open>OK\<close>, \<open>ENABLE_TIMEOUT\<close> or
  \<open>SIGNAL_INTERRUPTED\<close>; an attempt whose wait returned \<open>HOME_TIMEOUT\<close> is followed
  by the next attempt, and \<open>performHoming\<close> never returns \<open>HOME_TIMEOUT\<close>.
\<close>

theorem unreachable_exit_codes:
  "(run dev cfg s = Some (Returns e, s') \<longrightarrow>
      e \<noteq> ENABLE_FAILED \<and> e \<noteq> HOME_TIMEOUT \<and> e \<noteq> STATUS_CHECK_FAILED
      \<and> exit_code e \<noteq> 3 \<and> exit_code e \<noteq> 6 \<and> exit_code e \<noteq> 8)
 \<and> (enableMotors dev cfg s = Some (r, s') \<longrightarrow>
      r \<in> {Returns OK, Returns ENABLE_TIMEOUT, Returns SIGNAL_INTERRUPTED})
 \<and> (do_enable_arm dev 7 s = (ok, s1) \<and> enable_fast_loop dev 0 s1 = (None, n, s2)
      \<and> n < MAX_RETRIES \<longrightarrow>
      enableMotors dev cfg s = Some (Returns OK, s2))
 \<and> (retry < home_retry_count cfg \<and> read_shutdown dev s = (False, s1)
      \<and> do_motion_control_2 dev [1, 1, motion_speed_percent cfg, 0, 0, 0]
           (if 0 < retry then do_sleep dev 1000 s1 else s1) = (True, s3)
      \<and> do_move_joint dev (target_joints cfg) (do_sleep dev 100 s3) = (True, s5)
      \<and> waitHomingDone dev cfg s5 = Some (Returns HOME_TIMEOUT, s6) \<longrightarrow>
      performHoming_loop dev cfg retry s = performHoming_loop dev cfg (retry + 1) s6)
 \<and> (performHoming dev cfg s = Some (r, s') \<longrightarrow> r \<noteq> Returns HOME_TIMEOUT)
 \<and> exit_code ENABLE_FAILED = 3 \<and> exit_code HOME_TIMEOUT = 6
 \<and> exit_code STATUS_CHECK_FAILED = 8"
proof -
  have a: "e \<noteq> ENABLE_FAILED \<and> e \<noteq> HOME_TIMEOUT \<and> e \<noteq> STATUS_CHECK_FAILED
      \<and> exit_code e \<noteq> 3 \<and> exit_code e \<noteq> 6 \<and> exit_code e \<noteq> 8"
    if "run dev cfg s = Some (Returns e, s')"
    using run_outcomes [OF that] by auto
  have b: "enableMotors dev cfg s = Some (Returns OK, s2)"
    if "do_enable_arm dev 7 s = (ok, s1)" "enable_fast_loop dev 0 s1 = (None, n, s2)"
      "n < MAX_RETRIES"
    using that by (simp add: enableMotors_def)
  show ?thesis
    using a b
    by (auto intro: performHoming_loop_retry
        dest: performHoming_outcomes enableMotors_outcomes)
qed

lemma unacknowledged_eval:
  "read_shutdown unacknowledged s = (False, emit (ShutdownRead False) (world s) s)"
  "do_sleep unacknowledged d s = emit (SleepFor d) (world s + max d 0) s"
  "do_get_arm_status unacknowledged s =
     (Some off_target_status, emit (GetArmStatus (Some off_target_status)) (world s) s)"
  "do_enable_piper unacknowledged s = (True, emit (EnablePiper True) (world s) s)"
  "do_enable_arm unacknowledged n s = (False, emit (EnableArm n False) (world s) s)"
  "do_motion_control_2 unacknowledged args s =
     (True, emit (MotionControl2 args True) (world s) s)"
  "do_move_joint unacknowledged joints s = (True, emit (MoveJoint joints True) (world s) s)"
  "do_new_interface unacknowledged name s = (True, emit (NewInterface name True) (world s) s)"
  "do_connect_port unacknowledged s = (True, emit (ConnectPort True) (world s) s)"
  "do_get_connect_status unacknowledged s =
     ((True, False), emit (GetConnectStatus True False) (world s) s)"
  "do_get_piper_firmware_version unacknowledged s = emit GetPiperFirmwareVersion (world s) s"
  "do_get_cached_firmware_version unacknowledged s =
     (None, emit (GetCachedFirmwareVersion None) (world s) s)"
  "now unacknowledged s = world s"
  "steady_clock_now unacknowledged t = t"
  by (simp_all add: do_defs now_def Let_def unacknowledged_def never_converging_def
      sim_device_def)

lemma off_target_poll: "homing_poll quick_Config (Some off_target_status) = KeepWaiting"
  by (simp add: homing_poll_def off_target_status_def quick_Config_def main_Config_def
      default_Config_def joint_diff_def kPositionTolerance_def)

theorem unreachable_exit_codes_witness:
  "(\<exists>s'. run unacknowledged quick_Config boot = Some (Returns HOME_FAILED, s')
         \<and> EnableArm 7 False \<in> set (trace s'))
   \<and> exit_code HOME_FAILED = 5
   \<and> (\<exists>s5 s6. waitHomingDone unacknowledged quick_Config s5 = Some (Returns HOME_TIMEOUT, s6))"
proof -
  let ?dev = unacknowledged
  let ?s4 = "emit (GetArmStatus (Some off_target_status)) 300 linked"
  let ?sa = "emit (EnableArm 7 False) 300 ?s4"
  let ?se = "emit (EnablePiper True) 300 ?sa"
  let ?h1 = "emit (ShutdownRead False) 300 ?se"
  let ?h3 = "emit (MotionControl2 [1, 1, 30, 0, 0, 0] True) 300 ?h1"
  let ?h5 = "emit (MoveJoint [- 90000, 0, 0, 0, 0, 0] True) 400 (emit (SleepFor 100) 400 ?h3)"
  let ?p1 = "emit (SleepFor 50) 450 (emit (GetArmStatus (Some off_target_status)) 400
               (emit (ShutdownRead False) 400 ?h5))"
  let ?h6 = "emit (SleepFor 50) 500 (emit (GetArmStatus (Some off_target_status)) 450
               (emit (ShutdownRead False) 450 ?p1))"
  have cfg: "home_retry_count quick_Config = 2" "home_timeout quick_Config = 100"
    "status_poll_interval quick_Config = 50" "motion_speed_percent quick_Config = 30"
    "target_joints quick_Config = [- 90000, 0, 0, 0, 0, 0]"
    "can_interface quick_Config = ''can0''" "connect_timeout quick_Config = 5000"
    by (simp_all add: quick_Config_def main_Config_def default_Config_def)
  have wait: "waitHomingDone ?dev quick_Config ?h5 = Some (Returns HOME_TIMEOUT, ?h6)"
    by (simp add: waitHomingDone_def waitHomingDone_loop.simps unacknowledged_eval cfg
        off_target_poll Let_def emit_def linked_def)
  have enable: "do_enable_arm ?dev 7 ?s4 = (False, ?sa)"
    "enable_fast_loop ?dev 0 ?sa = (None, 0, ?se)" "(0::int) < MAX_RETRIES"
    by (simp_all add: enable_fast_loop.simps unacknowledged_eval MAX_RETRIES_def Let_def
        emit_def linked_def)
  have h: "(0::int) < home_retry_count quick_Config"
    "read_shutdown ?dev ?se = (False, ?h1)"
    "do_motion_control_2 ?dev [1, 1, motion_speed_percent quick_Config, 0, 0, 0]
       (if (0::int) < 0 then do_sleep ?dev 1000 ?h1 else ?h1) = (True, ?h3)"
    "do_move_joint ?dev (target_joints quick_Config) (do_sleep ?dev 100 ?h3) = (True, ?h5)"
    by (simp_all add: unacknowledged_eval cfg Let_def emit_def linked_def)
  note inst = unreachable_exit_codes
    [of ?dev quick_Config ?se _ _ _ False ?h1 0 ?h1 0 ?h3 ?h5 ?h6]
  from inst h wait
  have step: "performHoming_loop ?dev quick_Config 0 ?se
                = performHoming_loop ?dev quick_Config (0 + 1) ?h6"
    by blast
  have rest: "\<exists>s'. performHoming_loop ?dev quick_Config 1 ?h6 = Some (Returns HOME_FAILED, s')
                \<and> EnableArm 7 False \<in> set (trace s')"
    by (simp add: waitHomingDone_def waitHomingDone_loop.simps performHoming_loop.simps
        unacknowledged_eval cfg off_target_poll Let_def emit_def linked_def)
  have pre: "createInterface ?dev quick_Config boot
               = (Returns OK, emit (NewInterface ''can0'' True) 0 boot)"
    "connectPort ?dev (emit (NewInterface ''can0'' True) 0 boot)
       = (Returns OK, emit (SleepFor 200) 200 (emit (ConnectPort True) 0
            (emit (NewInterface ''can0'' True) 0 boot)))"
    "waitForConnection ?dev quick_Config (emit (SleepFor 200) 200 (emit (ConnectPort True) 0
            (emit (NewInterface ''can0'' True) 0 boot))) = Some (Returns OK, linked)"
    "checkArmStatus ?dev linked = (Returns OK, ?s4)"
    "enableMotors ?dev quick_Config ?s4 = Some (Returns OK, ?se)"
    by (simp_all add: createInterface_def connectPort_def waitForConnection_def
        waitForConnection_loop.simps checkArmStatus_def enableMotors_def
        enable_fast_loop.simps unacknowledged_eval cfg boot_def linked_def emit_def
        off_target_status_def MAX_RETRIES_def Let_def)
  from rest step obtain s' where
    fin: "performHoming ?dev quick_Config ?se = Some (Returns HOME_FAILED, s')"
      "EnableArm 7 False \<in> set (trace s')"
    by (auto simp: performHoming_def)
  with pre have "run ?dev quick_Config boot = Some (Returns HOME_FAILED, s')"
    by (simp add: run_def)
  with fin(2) wait show ?thesis by auto
qed

section \<open>The sequence of steps\<close>

lemma run_after_status_check:
  assumes "createInterface dev cfg s0 = (Returns OK, s1)"
    and "connectPort dev s1 = (Returns OK, s2)"
    and "waitForConnection dev cfg s2 = Some (Returns OK, s3)"
    and "checkArmStatus dev s3 = (r, s4)"
  shows "run dev cfg s0 =
           (if r \<noteq> Returns OK then Some (r, s4)
            else do {
              (err, s5) \<leftarrow> enableMotors dev cfg s4;
              if err \<noteq> Returns OK then Some (err, s5)
              else do {
                (err, s6) \<leftarrow> performHoming dev cfg s5;
                if err \<noteq> Returns OK then Some (err, s6) else Some (Returns OK, s6)
              }
            })"
  using assms by (simp add: run_def)

text \<open>
  C7. In a run that reached the status check: when the first fetched status has
  \<open>error_code \<noteq> 0\<close>, the arm is reset, and the status fetched after the 500 ms delay
  still has \<open>error_code \<noteq> 0\<close>, the run returns \<open>ARM_ERROR\<close> (exit code 9); the check
  made exactly the calls fetch, reset, sleep, fetch, and the whole run made only calls
  of steps 1 to 4, so no enable command. When the re-fetched status has
  \<open>error_code = 0\<close> the check returns \<open>OK\<close> and the run goes on with
  \<open>enableMotors\<close>.
\<close>

theorem persistent_arm_error:
  assumes "createInterface dev cfg s0 = (Returns OK, s1)"
    and "connectPort dev s1 = (Returns OK, s2)"
    and "waitForConnection dev cfg s2 = Some (Returns OK, s3)"
    and "do_get_arm_status dev s3 = (Some st, s4)" and "error_code st \<noteq> 0"
    and "do_get_arm_status dev (do_sleep dev 500 (do_reset_arm dev s4)) = (Some st', s5)"
  shows "(error_code st' \<noteq> 0 \<longrightarrow>
            run dev cfg s0 = Some (Returns ARM_ERROR, s5) \<and> exit_code ARM_ERROR = 9)
       \<and> (error_code st' = 0 \<longrightarrow>
            checkArmStatus dev s3 = (Returns OK, s5)
            \<and> run dev cfg s0 =
                 do {
                   (err, s6) \<leftarrow> enableMotors dev cfg s5;
                   if err \<noteq> Returns OK then Some (err, s6)
                   else do {
                     (err, s7) \<leftarrow> performHoming dev cfg s6;
                     if err \<noteq> Returns OK then Some (err, s7) else Some (Returns OK, s7)
                   }
                 })
       \<and> new_events s3 s5 =
           [GetArmStatus (Some st), ResetArm, SleepFor 500, GetArmStatus (Some st')]
       \<and> list_all (\<lambda>e. earliest_step e \<le> 4) (new_events s0 s5)
       \<and> EnableArm n ok \<notin> set (new_events s0 s5)
       \<and> EnablePiper ok \<notin> set (new_events s0 s5)"
proof -
  have chk: "checkArmStatus dev s3 =
      (if error_code st' \<noteq> 0 then Returns ARM_ERROR else Returns OK, s5)"
    using assms(4-6) by (simp add: checkArmStatus_def)
  note run = run_after_status_check [OF assms(1-3) chk]
  have e: "emits 4 dev s0 s5"
    using emits_mono [OF createInterface_emits [OF assms(1)], of 4]
      emits_mono [OF connectPort_emits [OF assms(2)], of 4]
      emits_mono [OF waitForConnection_emits [OF assms(3)], of 4]
      checkArmStatus_emits [OF chk]
    by (auto intro: emits_trans)
  from emits_new_events [OF e]
  have early: "list_all (\<lambda>e. earliest_step e \<le> 4) (new_events s0 s5)"
    by (auto simp: list_all_iff)
  then have none: "EnableArm n ok \<notin> set (new_events s0 s5)"
    "EnablePiper ok \<notin> set (new_events s0 s5)"
    by (auto simp: list_all_iff)
  have ne: "new_events s3 s5 =
      [GetArmStatus (Some st), ResetArm, SleepFor 500, GetArmStatus (Some st')]"
    using assms(4,6)
    by (auto simp: new_events_def do_sleep_def do_reset_arm_def dest!: do_get_arm_statusD)
  show ?thesis
    using chk run early none ne by simp
qed

lemma sim_checkArmStatus:
  "arm 300 = Some error_status \<Longrightarrow> arm 800 = Some st \<Longrightarrow>
   do_get_arm_status (sim_device flag link arm en) linked
     = (Some error_status,
        \<lparr> world = 300, trace = trace linked @ [GetArmStatus (Some error_status)] \<rparr>)
   \<and> do_get_arm_status (sim_device flag link arm en)
       (do_sleep (sim_device flag link arm en) 500
          (do_reset_arm (sim_device flag link arm en)
             \<lparr> world = 300, trace = trace linked @ [GetArmStatus (Some error_status)] \<rparr>))
     = (Some st, after_reset st)"
  by (simp add: sim_eval after_reset_def linked_def emit_def)

theorem persistent_arm_error_witness:
  "error_code error_status \<noteq> 0
   \<and> run persistent_error main_Config boot = Some (Returns ARM_ERROR, after_reset error_status)
   \<and> error_code near_target_status = 0
   \<and> checkArmStatus cleared_by_reset linked = (Returns OK, after_reset near_target_status)"
proof -
  let ?s1 = "\<lparr> world = 0, trace = [NewInterface ''can0'' True] \<rparr> :: int state"
  let ?s2 = "\<lparr> world = 200, trace = [NewInterface ''can0'' True, ConnectPort True,
               SleepFor 200] \<rparr> :: int state"
  let ?s4 = "\<lparr> world = 300, trace = trace linked @ [GetArmStatus (Some error_status)] \<rparr>
               :: int state"
  have err: "error_code error_status \<noteq> 0" "error_code near_target_status = 0"
    by (simp_all add: error_status_def near_target_status_def)
  note a = sim_steps_to_linked [of "\<lambda>t. False" "\<lambda>t. (True, False)"
      "\<lambda>t. Some error_status" "\<lambda>t. True", folded persistent_error_def]
  note b = sim_steps_to_linked [of "\<lambda>t. False" "\<lambda>t. (True, False)"
      "\<lambda>t. if t < 800 then Some error_status else Some near_target_status" "\<lambda>t. True",
      folded cleared_by_reset_def]
  note ca = sim_checkArmStatus [of "\<lambda>t. Some error_status" error_status
      "\<lambda>t. False" "\<lambda>t. (True, False)" "\<lambda>t. True", folded persistent_error_def]
  note cb = sim_checkArmStatus
      [of "\<lambda>t. if t < 800 then Some error_status else Some near_target_status"
      near_target_status "\<lambda>t. False" "\<lambda>t. (True, False)" "\<lambda>t. True",
      folded cleared_by_reset_def]
  from persistent_arm_error [of persistent_error main_Config boot ?s1 ?s2 linked
      error_status ?s4 error_status "after_reset error_status"] a ca err
  have 1: "run persistent_error main_Config boot
             = Some (Returns ARM_ERROR, after_reset error_status)"
    by simp
  from persistent_arm_error [of cleared_by_reset main_Config boot ?s1 ?s2 linked
      error_status ?s4 near_target_status "after_reset near_target_status"] b cb err
  have 2: "checkArmStatus cleared_by_reset linked = (Returns OK, after_reset near_target_status)"
    by simp
  from err 1 2 show ?thesis by simp
qed

lemma run_extends_link:
  assumes "createInterface dev cfg s = (Returns OK, s1)"
    and "connectPort dev s1 = (Returns OK, s2)"
    and "waitForConnection dev cfg s2 = Some (Returns OK, s3)"
    and "run dev cfg s = Some (r, s')"
  shows "\<exists>evs. trace s' = trace s3 @ evs"
proof -
  have "emits 6 dev s3 s'"
    using assms(4)
  proof (cases rule: run_cases)
    case create
    with assms(1) show ?thesis by simp
  next
    case (connect t1)
    with assms(1,2) show ?thesis by simp
  next
    case (link t1 t2)
    with assms(1-3) show ?thesis by simp
  next
    case (status t1 t2 t3)
    with assms(1-3) emits_mono [OF checkArmStatus_emits [of dev s3 r s'], of 6]
    show ?thesis by simp
  next
    case (enable t1 t2 t3 t4)
    with assms(1-3) have "checkArmStatus dev s3 = (Returns OK, t4)"
      "enableMotors dev cfg t4 = Some (r, s')" by simp_all
    from emits_trans [OF emits_mono [OF checkArmStatus_emits [OF this(1)], of 6]
        emits_mono [OF enableMotors_emits [OF this(2)], of 6]]
    show ?thesis by simp
  next
    case (home t1 t2 t3 t4 t5)
    with assms(1-3) have "checkArmStatus dev s3 = (Returns OK, t4)"
      "enableMotors dev cfg t4 = Some (Returns OK, t5)"
      "performHoming dev cfg t5 = Some (r, s')" by simp_all
    from emits_trans [OF emits_trans [OF emits_mono [OF checkArmStatus_emits [OF this(1)], of 6]
          emits_mono [OF enableMotors_emits [OF this(2)], of 6]]
        performHoming_emits [OF this(3)]]
    show ?thesis by simp
  qed
  then show ?thesis by (auto simp: emits_def)
qed

text \<open>
  C6. The result of the first step that does not return \<open>OK\<close> is the result of the
  run, in the state that step ended in: nothing is called after it, and what the run
  has called are calls of that step and the steps before it (\<open>emits k\<close>). In
  particular, once the interface is created and the port connected, a run on a
  monotonic clock in which no link poll answers \<open>connected \<and> \<not> stale\<close> and no read of
  the flag finds it set returns \<open>CONNECT_FAILED\<close> (exit code 2), at least
  \<open>connect_timeout\<close> after the wait began, having made only calls of steps 1 to 3:
  no status, enable or move call.
\<close>

theorem step_failure_short_circuits:
  "(createInterface dev cfg s = (r, s1) \<and> r \<noteq> Returns OK \<longrightarrow>
      run dev cfg s = Some (r, s1) \<and> emits 1 dev s s1)
 \<and> (createInterface dev cfg s = (Returns OK, s1) \<and> connectPort dev s1 = (r, s2)
      \<and> r \<noteq> Returns OK \<longrightarrow>
      run dev cfg s = Some (r, s2) \<and> emits 2 dev s s2)
 \<and> (createInterface dev cfg s = (Returns OK, s1) \<and> connectPort dev s1 = (Returns OK, s2)
      \<and> waitForConnection dev cfg s2 = Some (r, s3) \<and> r \<noteq> Returns OK \<longrightarrow>
      run dev cfg s = Some (r, s3) \<and> emits 3 dev s s3)
 \<and> (createInterface dev cfg s = (Returns OK, s1) \<and> connectPort dev s1 = (Returns OK, s2)
      \<and> waitForConnection dev cfg s2 = Some (Returns OK, s3)
      \<and> checkArmStatus dev s3 = (r, s4) \<and> r \<noteq> Returns OK \<longrightarrow>
      run dev cfg s = Some (r, s4) \<and> emits 4 dev s s4)
 \<and> (createInterface dev cfg s = (Returns OK, s1) \<and> connectPort dev s1 = (Returns OK, s2)
      \<and> waitForConnection dev cfg s2 = Some (Returns OK, s3)
      \<and> checkArmStatus dev s3 = (Returns OK, s4)
      \<and> enableMotors dev cfg s4 = Some (r, s5) \<and> r \<noteq> Returns OK \<longrightarrow>
      run dev cfg s = Some (r, s5) \<and> emits 5 dev s s5)
 \<and> (createInterface dev cfg s = (Returns OK, s1) \<and> connectPort dev s1 = (Returns OK, s2)
      \<and> waitForConnection dev cfg s2 = Some (Returns OK, s3)
      \<and> checkArmStatus dev s3 = (Returns OK, s4)
      \<and> enableMotors dev cfg s4 = Some (Returns OK, s5)
      \<and> performHoming dev cfg s5 = Some (r, s6) \<longrightarrow>
      run dev cfg s = Some (r, s6))
 \<and> (monotonic_clock dev \<and> 0 < status_poll_interval cfg
      \<and> createInterface dev cfg s = (Returns OK, s1)
      \<and> connectPort dev s1 = (Returns OK, s2) \<longrightarrow>
      (\<exists>r' s'. run dev cfg s = Some (r', s')
          \<and> (GetConnectStatus True False \<notin> set (new_events s2 s')
               \<and> ShutdownRead True \<notin> set (new_events s2 s') \<longrightarrow>
              r' = Returns CONNECT_FAILED \<and> exit_code CONNECT_FAILED = 2
              \<and> now dev s2 + connect_timeout cfg \<le> now dev s'
              \<and> emits 3 dev s s')))"
proof -
  have k1: "run dev cfg s = Some (r, s1) \<and> emits 1 dev s s1"
    if "createInterface dev cfg s = (r, s1)" "r \<noteq> Returns OK"
    using that createInterface_emits [OF that(1)] by (simp add: run_def)
  have k2: "run dev cfg s = Some (r, s2) \<and> emits 2 dev s s2"
    if "createInterface dev cfg s = (Returns OK, s1)" "connectPort dev s1 = (r, s2)"
      "r \<noteq> Returns OK"
    using that emits_trans [OF emits_mono [OF createInterface_emits [OF that(1)], of 2]
        connectPort_emits [OF that(2)]]
    by (simp add: run_def)
  have k3: "run dev cfg s = Some (r, s3) \<and> emits 3 dev s s3"
    if "createInterface dev cfg s = (Returns OK, s1)" "connectPort dev s1 = (Returns OK, s2)"
      "waitForConnection dev cfg s2 = Some (r, s3)" "r \<noteq> Returns OK" for r s3
    using that emits_trans [OF emits_trans [OF
          emits_mono [OF createInterface_emits [OF that(1)], of 3]
          emits_mono [OF connectPort_emits [OF that(2)], of 3]]
        waitForConnection_emits [OF that(3)]]
    by (simp add: run_def)
  have k4: "run dev cfg s = Some (r, s4) \<and> emits 4 dev s s4"
    if "createInterface dev cfg s = (Returns OK, s1)" "connectPort dev s1 = (Returns OK, s2)"
      "waitForConnection dev cfg s2 = Some (Returns OK, s3)"
      "checkArmStatus dev s3 = (r, s4)" "r \<noteq> Returns OK"
    using that emits_trans [OF emits_trans [OF emits_trans [OF
            emits_mono [OF createInterface_emits [OF that(1)], of 4]
            emits_mono [OF connectPort_emits [OF that(2)], of 4]]
          emits_mono [OF waitForConnection_emits [OF that(3)], of 4]]
        checkArmStatus_emits [OF that(4)]]
    by (simp add: run_def)
  have k5: "run dev cfg s = Some (r, s5) \<and> emits 5 dev s s5"
    if "createInterface dev cfg s = (Returns OK, s1)" "connectPort dev s1 = (Returns OK, s2)"
      "waitForConnection dev cfg s2 = Some (Returns OK, s3)"
      "checkArmStatus dev s3 = (Returns OK, s4)"
      "enableMotors dev cfg s4 = Some (r, s5)" "r \<noteq> Returns OK"
    using that emits_trans [OF emits_trans [OF emits_trans [OF emits_trans [OF
              emits_mono [OF createInterface_emits [OF that(1)], of 5]
              emits_mono [OF connectPort_emits [OF that(2)], of 5]]
            emits_mono [OF waitForConnection_emits [OF that(3)], of 5]]
          emits_mono [OF checkArmStatus_emits [OF that(4)], of 5]]
        enableMotors_emits [OF that(5)]]
    by (simp add: run_def)
  have k6: "run dev cfg s = Some (r, s6)"
    if "createInterface dev cfg s = (Returns OK, s1)" "connectPort dev s1 = (Returns OK, s2)"
      "waitForConnection dev cfg s2 = Some (Returns OK, s3)"
      "checkArmStatus dev s3 = (Returns OK, s4)"
      "enableMotors dev cfg s4 = Some (Returns OK, s5)"
      "performHoming dev cfg s5 = Some (r, s6)"
    using that by (simp add: run_def)
  have sc: "\<exists>r' s'. run dev cfg s = Some (r', s')
          \<and> (GetConnectStatus True False \<notin> set (new_events s2 s')
               \<and> ShutdownRead True \<notin> set (new_events s2 s') \<longrightarrow>
              r' = Returns CONNECT_FAILED \<and> exit_code CONNECT_FAILED = 2
              \<and> now dev s2 + connect_timeout cfg \<le> now dev s'
              \<and> emits 3 dev s s')"
    if mc: "monotonic_clock dev" "0 < status_poll_interval cfg"
      and c1: "createInterface dev cfg s = (Returns OK, s1)"
      and c2: "connectPort dev s1 = (Returns OK, s2)"
  proof -
    obtain r' s' where run: "run dev cfg s = Some (r', s')"
      using run_returns [OF mc] by blast
    obtain y where w: "waitForConnection_loop dev cfg (now dev s2 + connect_timeout cfg) s2
        = Some y"
      using waitForConnection_loop_returns [OF mc] by blast
    then have w': "waitForConnection dev cfg s2 = Some (fst y, snd y)"
      by (simp add: waitForConnection_def)
    from waitForConnection_loop_never_linked [OF w] obtain evs where
      evs: "trace (snd y) = trace s2 @ evs"
        "GetConnectStatus True False \<notin> set evs \<and> ShutdownRead True \<notin> set evs
           \<longrightarrow> fst y = Returns CONNECT_FAILED
             \<and> now dev s2 + connect_timeout cfg \<le> now dev (snd y)"
      by blast
    have "r' = Returns CONNECT_FAILED \<and> exit_code CONNECT_FAILED = 2
              \<and> now dev s2 + connect_timeout cfg \<le> now dev s'
              \<and> emits 3 dev s s'"
      if quiet: "GetConnectStatus True False \<notin> set (new_events s2 s')"
        "ShutdownRead True \<notin> set (new_events s2 s')"
    proof (cases "fst y = Returns OK")
      case True
      with w' have "waitForConnection dev cfg s2 = Some (Returns OK, snd y)" by simp
      from run_extends_link [OF c1 c2 this run] obtain more where
        "trace s' = trace (snd y) @ more" ..
      with evs(1) have "new_events s2 s' = evs @ more" by (simp add: new_events_def)
      with quiet evs(2) True show ?thesis by auto
    next
      case False
      from k3 [OF c1 c2 w' False] run have eq: "r' = fst y" "s' = snd y"
        and e3: "emits 3 dev s s'"
        by auto
      with evs(1) have "new_events s2 s' = evs" by (simp add: new_events_def)
      with quiet evs(2) eq e3 show ?thesis by simp
    qed
    with run show ?thesis by blast
  qed
  show ?thesis
    using k1 k2 k3 k4 k5 k6 sc by blast
qed

lemma sim_checkArmStatus_ok:
  "arm 300 = Some near_target_status \<Longrightarrow>
   checkArmStatus (sim_device flag link arm en) linked =
     (Returns OK,
      \<lparr> world = 300, trace = trace linked @ [GetArmStatus (Some near_target_status)] \<rparr>)"
  by (simp add: checkArmStatus_def sim_eval near_target_status_def emit_def linked_def)

lemma near_target_poll:
  "homing_poll main_Config (Some near_target_status) = Return (Returns OK)"
  by (simp add: homing_poll_def near_target_status_def main_Config_def default_Config_def
      joint_diff_def kPositionTolerance_def)

lemma main_Config_fields:
  "home_retry_count main_Config = 2" "home_timeout main_Config = 60000"
  "status_poll_interval main_Config = 50" "motion_speed_percent main_Config = 30"
  "target_joints main_Config = [- 90000, 0, 0, 0, 0, 0]"
  "can_interface main_Config = ''can0''" "connect_timeout main_Config = 5000"
  "enable_timeout main_Config = 10000"
  by (simp_all add: main_Config_def default_Config_def)

theorem step_failure_short_circuits_witness:
  "run no_bus main_Config boot =
     Some (Returns CAN_OPEN_FAILED, \<lparr> world = 0, trace = [NewInterface ''can0'' False] \<rparr>)
   \<and> run no_port main_Config boot =
     Some (Returns CONNECT_FAILED,
           \<lparr> world = 0, trace = [NewInterface ''can0'' True, ConnectPort False] \<rparr>)
   \<and> (\<exists>s'. run never_linked main_Config boot = Some (Returns CONNECT_FAILED, s')
          \<and> 5200 \<le> world s' \<and> emits 3 never_linked boot s')
   \<and> run persistent_error main_Config boot
       = Some (Returns ARM_ERROR, after_reset error_status)
   \<and> run cancelled_in_enable main_Config boot =
     Some (Returns SIGNAL_INTERRUPTED,
           \<lparr> world = 300,
             trace = trace linked @ [GetArmStatus (Some near_target_status), EnableArm 7 True,
                                     EnablePiper False, ShutdownRead True] \<rparr>)
   \<and> run healthy main_Config boot =
     Some (Returns OK,
           \<lparr> world = 400,
             trace = trace move_sent @
               [ShutdownRead False, GetArmStatus (Some near_target_status)] \<rparr>)"
proof -
  let ?s1 = "\<lparr> world = 0, trace = [NewInterface ''can0'' True] \<rparr> :: int state"
  let ?s2 = "\<lparr> world = 200, trace = [NewInterface ''can0'' True, ConnectPort True,
               SleepFor 200] \<rparr> :: int state"
  let ?s4 = "\<lparr> world = 300, trace = trace linked @ [GetArmStatus (Some near_target_status)] \<rparr>
               :: int state"
  let ?sc = "\<lparr> world = 300,
             trace = trace linked @ [GetArmStatus (Some near_target_status), EnableArm 7 True,
                                     EnablePiper False, ShutdownRead True] \<rparr> :: int state"
  let ?sf = "\<lparr> world = 400,
             trace = trace move_sent @
               [ShutdownRead False, GetArmStatus (Some near_target_status)] \<rparr> :: int state"
  note T = step_failure_short_circuits

  have bus: "createInterface no_bus main_Config boot
      = (Returns CAN_OPEN_FAILED, \<lparr> world = 0, trace = [NewInterface ''can0'' False] \<rparr>)"
    by (simp add: createInterface_def do_defs no_bus_def never_converging_def sim_device_def
        main_Config_fields boot_def emit_def)
  have 1: "run no_bus main_Config boot =
     Some (Returns CAN_OPEN_FAILED, \<lparr> world = 0, trace = [NewInterface ''can0'' False] \<rparr>)"
    by (rule T [of no_bus main_Config boot "Returns CAN_OPEN_FAILED"
        "\<lparr> world = 0, trace = [NewInterface ''can0'' False] \<rparr>", THEN conjunct1, THEN mp, THEN conjunct1])
      (simp add: bus)

  have port: "createInterface no_port main_Config boot = (Returns OK, ?s1)"
    "connectPort no_port ?s1 = (Returns CONNECT_FAILED,
        \<lparr> world = 0, trace = [NewInterface ''can0'' True, ConnectPort False] \<rparr>)"
    by (simp_all add: createInterface_def connectPort_def do_defs no_port_def
        never_converging_def sim_device_def main_Config_fields boot_def emit_def)
  have 2: "run no_port main_Config boot =
     Some (Returns CONNECT_FAILED,
           \<lparr> world = 0, trace = [NewInterface ''can0'' True, ConnectPort False] \<rparr>)"
    by (rule T [of no_port main_Config boot "Returns CONNECT_FAILED" ?s1
        "\<lparr> world = 0, trace = [NewInterface ''can0'' True, ConnectPort False] \<rparr>",
        THEN conjunct2, THEN conjunct1, THEN mp, THEN conjunct1])
      (simp add: port)

  have nl: "createInterface never_linked main_Config boot = (Returns OK, ?s1)"
    "connectPort never_linked ?s1 = (Returns OK, ?s2)"
    using sim_steps_to_linked(1,2) [of "\<lambda>t. False" "\<lambda>t. (False, False)"
        "\<lambda>t. Some near_target_status" "\<lambda>t. True"]
    by (simp_all add: never_linked_def)
  have mc: "monotonic_clock never_linked" "0 < status_poll_interval main_Config"
    by (simp_all add: never_linked_def monotonic_clock_sim main_Config_fields)
  from T [of never_linked main_Config boot _ ?s1 ?s2, THEN conjunct2, THEN conjunct2,
      THEN conjunct2, THEN conjunct2, THEN conjunct2, THEN conjunct2, THEN mp,
      OF conjI [OF mc(1) conjI [OF mc(2) conjI [OF nl(1) nl(2)]]]]
  obtain r' s' where run3: "run never_linked main_Config boot = Some (r', s')"
    and imp3: "GetConnectStatus True False \<notin> set (new_events ?s2 s')
               \<and> ShutdownRead True \<notin> set (new_events ?s2 s') \<longrightarrow>
              r' = Returns CONNECT_FAILED
              \<and> now never_linked ?s2 + connect_timeout main_Config \<le> now never_linked s'
              \<and> emits 3 never_linked boot s'"
    by blast
  have "\<exists>k. emits k never_linked ?s2 s'"
  proof -
    from waitForConnection_loop_returns
      [OF mc, of "now never_linked ?s2 + connect_timeout main_Config" ?s2]
    obtain y where "waitForConnection_loop never_linked main_Config
        (now never_linked ?s2 + connect_timeout main_Config) ?s2 = Some y" ..
    then have "waitForConnection never_linked main_Config ?s2 = Some y"
      by (simp only: waitForConnection_def)
    then obtain r3 s3 where w: "waitForConnection never_linked main_Config ?s2 = Some (r3, s3)"
      by (cases y) auto
    show ?thesis
    proof (cases "r3 = Returns OK")
      case True
      with run_extends_link [OF nl w [unfolded True] run3] w
        waitForConnection_emits [of never_linked main_Config ?s2 "Returns OK" s3]
      obtain evs where "trace s' = trace s3 @ evs" "emits 3 never_linked ?s2 s3" by auto
      moreover have "\<not> answers never_linked (GetConnectStatus True False)"
        by (simp add: never_linked_def)
      moreover from waitForConnection_loop_never_linked
        [of never_linked main_Config "now never_linked ?s2 + connect_timeout main_Config" ?s2
          "(r3, s3)"] w True
      obtain evs3 where "trace s3 = trace ?s2 @ evs3"
        "GetConnectStatus True False \<in> set evs3 \<or> ShutdownRead True \<in> set evs3"
        by (auto simp: waitForConnection_def)
      moreover have "\<not> answers never_linked (ShutdownRead True)"
        by (simp add: never_linked_def)
      ultimately have False
        by (auto simp: emits_def list_all_iff)
      then show ?thesis ..
    next
      case False
      from T [of never_linked main_Config boot r3 ?s1 ?s2 s3, THEN conjunct2, THEN conjunct2,
          THEN conjunct1, THEN mp, THEN conjunct1,
          OF conjI [OF nl(1) conjI [OF nl(2) conjI [OF w False]]]] run3
      have "s' = s3" by simp
      with waitForConnection_emits [OF w] show ?thesis by blast
    qed
  qed
  then obtain k where "emits k never_linked ?s2 s'" ..
  from new_events_answers [OF this]
  have "GetConnectStatus True False \<notin> set (new_events ?s2 s')"
    "ShutdownRead True \<notin> set (new_events ?s2 s')"
    by (simp_all add: never_linked_def)
  with imp3 run3 have 3: "\<exists>s'. run never_linked main_Config boot = Some (Returns CONNECT_FAILED, s')
          \<and> 5200 \<le> world s' \<and> emits 3 never_linked boot s'"
    by (auto simp: now_def never_linked_def main_Config_fields)

  have pe: "createInterface persistent_error main_Config boot = (Returns OK, ?s1)"
    "connectPort persistent_error ?s1 = (Returns OK, ?s2)"
    "waitForConnection persistent_error main_Config ?s2 = Some (Returns OK, linked)"
    "checkArmStatus persistent_error linked = (Returns ARM_ERROR, after_reset error_status)"
    using sim_steps_to_linked [of "\<lambda>t. False" "\<lambda>t. (True, False)"
        "\<lambda>t. Some error_status" "\<lambda>t. True"]
    by (simp_all add: persistent_error_def checkArmStatus_def sim_eval error_status_def
        after_reset_def emit_def linked_def)
  have 4: "run persistent_error main_Config boot
       = Some (Returns ARM_ERROR, after_reset error_status)"
    by (rule T [of persistent_error main_Config boot "Returns ARM_ERROR" ?s1 ?s2 linked
        "after_reset error_status", THEN conjunct2, THEN conjunct2, THEN conjunct2, THEN conjunct1, THEN mp,
        THEN conjunct1])
      (simp add: pe)

  have ce: "createInterface cancelled_in_enable main_Config boot = (Returns OK, ?s1)"
    "connectPort cancelled_in_enable ?s1 = (Returns OK, ?s2)"
    "waitForConnection cancelled_in_enable main_Config ?s2 = Some (Returns OK, linked)"
    "checkArmStatus cancelled_in_enable linked = (Returns OK, ?s4)"
    "enableMotors cancelled_in_enable main_Config ?s4 = Some (Returns SIGNAL_INTERRUPTED, ?sc)"
    using sim_steps_to_linked [of "\<lambda>t. 300 \<le> t" "\<lambda>t. (True, False)"
        "\<lambda>t. Some near_target_status" "\<lambda>t. False"]
      sim_checkArmStatus_ok [of "\<lambda>t. Some near_target_status" "\<lambda>t. 300 \<le> t"
        "\<lambda>t. (True, False)" "\<lambda>t. False"]
    by (simp_all add: cancelled_in_enable_def enableMotors_def enable_fast_loop.simps
        sim_eval MAX_RETRIES_def Let_def emit_def linked_def)
  have 5: "run cancelled_in_enable main_Config boot = Some (Returns SIGNAL_INTERRUPTED, ?sc)"
    by (rule T [of cancelled_in_enable main_Config boot "Returns SIGNAL_INTERRUPTED" ?s1 ?s2
        linked ?s4 ?sc, THEN conjunct2, THEN conjunct2, THEN conjunct2, THEN conjunct2,
        THEN conjunct1, THEN mp, THEN conjunct1])
      (simp add: ce)

  have he: "createInterface healthy main_Config boot = (Returns OK, ?s1)"
    "connectPort healthy ?s1 = (Returns OK, ?s2)"
    "waitForConnection healthy main_Config ?s2 = Some (Returns OK, linked)"
    "checkArmStatus healthy linked = (Returns OK, ?s4)"
    "enableMotors healthy main_Config ?s4 = Some (Returns OK, enabled_state)"
    "performHoming healthy main_Config enabled_state = Some (Returns OK, ?sf)"
    using sim_steps_to_linked [of "\<lambda>t. False" "\<lambda>t. (True, False)"
        "\<lambda>t. Some near_target_status" "\<lambda>t. True"]
      sim_checkArmStatus_ok [of "\<lambda>t. Some near_target_status" "\<lambda>t. False"
        "\<lambda>t. (True, False)" "\<lambda>t. True"]
    by (simp_all add: healthy_def enableMotors_def enable_fast_loop.simps performHoming_def
        performHoming_loop.simps waitHomingDone_def waitHomingDone_loop.simps
        sim_eval MAX_RETRIES_def Let_def emit_def linked_def enabled_state_def move_sent_def
        main_Config_fields near_target_poll)
  have 6: "run healthy main_Config boot = Some (Returns OK, ?sf)"
    by (rule T [of healthy main_Config boot "Returns OK" ?s1 ?s2 linked ?s4 enabled_state ?sf,
        THEN conjunct2, THEN conjunct2, THEN conjunct2, THEN conjunct2,
        THEN conjunct2, THEN conjunct1, THEN mp])
      (simp add: he)

  show ?thesis by (intro conjI 1 2 3 4 5 6)
qed


section \<open>Cancellation of a run\<close>







end
